theory Spec2Isabelle
  imports Main "HOL-Library.Word"
begin

unbundle bit_operations_syntax

section \<open>The remote processor framework (drivers/remoteproc/remoteproc.c)\<close>

text \<open>
  A shallow embedding of the remote processor framework: the address translation
  \<open>rproc_da_to_pa\<close>, the firmware pipeline (\<open>rproc_load_fw\<close>, \<open>rproc_process_fw\<close>,
  \<open>rproc_handle_resources\<close>, \<open>rproc_handle_trace_rsc\<close>, \<open>rproc_start\<close>), the
  acquire/release pair \<open>rproc_get\<close>/\<open>rproc_put\<close> and the registry
  (\<open>__find_rproc_by_name\<close>, \<open>rproc_register\<close>, \<open>rproc_unregister\<close>).

  Every function takes the record of the processor and the list of events that have
  happened so far, and returns both updated. What the kernel does for the framework
  (mapping memory, locking, calling the platform's start and stop handlers, pinning the
  owner module) is answered by an environment \<open>env\<close> and written to the event list.
\<close>

subsection \<open>Machine types\<close>

type_synonym u8 = "8 word"
type_synonym u32 = "32 word"
type_synonym u64 = "64 word"

text \<open>
  Modelled from the spec: the declaration of \<open>phys_addr_t\<close> (linux/types.h) is missing
  from the sources; the spec calls its width the host physical-address width. The
  platforms of this repository (OMAP4, DaVinci) are 32-bit ARM, and \<open>rproc_process_fw\<close>
  prints a \<open>phys_addr_t\<close> with \<open>%x\<close>: the width is 32 bits.
\<close>

type_synonym phys_addr_t = "32 word"

text \<open>A kernel virtual address; \<open>0\<close> is \<open>NULL\<close>.\<close>

type_synonym ptr = "32 word"

text \<open>The error numbers of errno-base.h that the framework returns (negated).\<close>

definition EINTR :: int where "EINTR = 4"
definition ENOMEM :: int where "ENOMEM = 12"
definition EBUSY :: int where "EBUSY = 16"
definition EINVAL :: int where "EINVAL = 22"

subsection \<open>The binary structure of the firmware (include/linux/remoteproc.h)\<close>

record fw_section =
  sec_type :: u32
  sec_da :: u64
  sec_len :: u32

definition sizeof_fw_header :: nat where "sizeof_fw_header = 12"
definition sizeof_fw_section :: nat where "sizeof_fw_section = 16"
definition sizeof_fw_resource :: nat where "sizeof_fw_resource = 76"

definition FW_RESOURCE :: u32 where "FW_RESOURCE = 0"
definition FW_TEXT :: u32 where "FW_TEXT = 1"
definition FW_DATA :: u32 where "FW_DATA = 2"

record fw_resource =
  rsc_type :: u32
  rsc_da :: u64
  rsc_pa :: u64
  rsc_len :: u32
  rsc_flags :: u32
  rsc_name :: "u8 list"

definition RSC_CARVEOUT :: u32 where "RSC_CARVEOUT = 0"
definition RSC_DEVMEM :: u32 where "RSC_DEVMEM = 1"
definition RSC_DEVICE :: u32 where "RSC_DEVICE = 2"
definition RSC_IRQ :: u32 where "RSC_IRQ = 3"
definition RSC_TRACE :: u32 where "RSC_TRACE = 4"
definition RSC_BOOTADDR :: u32 where "RSC_BOOTADDR = 5"

record rproc_mem_entry =
  me_da :: u64
  me_pa :: phys_addr_t
  me_size :: u32

datatype rproc_state =
  RPROC_OFFLINE | RPROC_SUSPENDED | RPROC_RUNNING | RPROC_LOADING | RPROC_CRASHED

text \<open>
  \<open>struct rproc\<close>. \<open>memory_maps\<close> is \<open>None\<close> for a \<open>NULL\<close> table, and otherwise the
  entries of the array in order. \<open>firmware\<close> is \<open>None\<close> for a \<open>NULL\<close> name.
  \<open>firmware_loading_complete\<close> is the done flag of the completion: cleared by
  \<open>init_completion\<close>, set by \<open>complete_all\<close>. The list linkage, the lock, \<open>dev\<close>,
  \<open>ops\<close>, \<open>owner\<close> and \<open>priv\<close> are handles to the environment and carry no data here.
\<close>

record rproc =
  name :: string
  memory_maps :: "rproc_mem_entry list option"
  firmware :: "string option"
  count :: int
  state :: rproc_state
  dbg_dir :: ptr
  trace_buf0 :: ptr
  trace_buf1 :: ptr
  trace_len0 :: u32
  trace_len1 :: u32
  firmware_loading_complete :: bool

subsection \<open>Address translation\<close>

text \<open>
  The loop of \<open>rproc_da_to_pa\<close> over the table. The table ends at the first entry of
  size 0; the end of the list stands for that sentinel too. The comparison
  \<open>da < me->da + me->size\<close> and the offset are computed in \<open>u64\<close>, and
  \<open>me->pa + offset\<close> is computed in \<open>u64\<close> and stored into a \<open>phys_addr_t\<close>.
\<close>

fun da_to_pa_maps :: "rproc_mem_entry list \<Rightarrow> u64 \<Rightarrow> int + phys_addr_t" where
  "da_to_pa_maps [] da = Inl (- EINVAL)"
| "da_to_pa_maps (me # maps) da =
     (if me_size me = 0 then Inl (- EINVAL)
      else if me_da me \<le> da \<and> da < me_da me + ucast (me_size me)
      then (let offset = da - me_da me
            in Inr (ucast ((ucast (me_pa me) :: u64) + offset)))
      else da_to_pa_maps maps da)"

definition rproc_da_to_pa :: "rproc_mem_entry list option \<Rightarrow> u64 \<Rightarrow> int + phys_addr_t" where
  "rproc_da_to_pa maps da =
     (case maps of
        None \<Rightarrow>
          if da > ucast (ucast (NOT 0 :: u32) :: phys_addr_t) then Inl (- EINVAL)
          else Inr (ucast da)
      | Some ms \<Rightarrow> da_to_pa_maps ms da)"

subsection \<open>Events and the environment\<close>

text \<open>
  The messages of \<open>dev_err\<close>, \<open>dev_warn\<close> and \<open>pr_err\<close>, named after their text.
  \<open>dev_info\<close> and \<open>dev_dbg\<close> lines are not recorded.
\<close>

datatype message =
    Cant_lock_remote_processor
  | Cant_start_rproc
  | Invalid_device_address
  | Skipping_extra_trace_rsc
  | Cant_ioremap_trace_buffer
  | Failed_handling_rsc
  | Bootaddr_already_set
  | Firmware_image_is_truncated
  | Rproc_da_to_pa_failed
  | Cant_ioremap
  | Failed_to_load
  | Image_is_too_small
  | Image_is_corrupted_bad_magic
  | Failed_to_process_the_image
  | Cant_find_remote_processor
  | Cant_get_owner
  | No_firmware_to_load
  | Request_firmware_nowait_failed
  | Asymmetric_put
  | Cant_lock_rproc
  | Cant_stop_rproc
  | Kzalloc_failed
  | Cant_create_debugfs_dir

datatype event =
    Dev_err message
  | Dev_warn message
  | Pr_err message
  | Ioremap phys_addr_t u32 ptr
  | Iounmap ptr
  | Memcpy ptr "u8 list"
  | Debugfs_add_trace0
  | Debugfs_add_trace1
  | Mutex_lock
  | Mutex_unlock
  | Ops_start u64 int
  | Ops_stop int
  | Try_module_get
  | Module_put
  | Request_firmware string int
  | Release_firmware
  | Debugfs_remove_recursive ptr
  | Kfree

text \<open>
  What the kernel and the platform answer. \<open>ioremap_nocache\<close> may depend on everything
  that happened before the call; a result of \<open>0\<close> is a failed mapping.
  \<open>mutex_lock_interruptible\<close> is the value the lock attempt returns (\<open>0\<close>, or
  \<open>- EINTR\<close> when interrupted), \<open>ops_start\<close> and \<open>ops_stop\<close> are the platform handlers'
  return values, \<open>request_firmware_nowait\<close> is the return value of scheduling the fetch.
\<close>

record env =
  ioremap_nocache :: "event list \<Rightarrow> phys_addr_t \<Rightarrow> u32 \<Rightarrow> ptr"
  mutex_lock_interruptible :: int
  ops_start :: "u64 \<Rightarrow> int"
  ops_stop :: int
  try_module_get :: bool
  request_firmware_nowait :: "string \<Rightarrow> int"
  kzalloc_ok :: bool
  rproc_dbg :: ptr
  debugfs_create_dir :: ptr

subsection \<open>Reading the packed structures\<close>

text \<open>Numeric fields are read in the byte order of the host, little-endian on ARM.\<close>

definition le_word :: "u8 list \<Rightarrow> 'a::len word" where
  "le_word bs = foldr (\<lambda>b w. ucast b + 256 * w) bs 0"

text \<open>
  A pointer into the firmware buffer is the list of the bytes from the pointer to the
  end of the buffer. A read that leaves the buffer has no defined result: \<open>None\<close>.
\<close>

definition read_fw_section :: "u8 list \<Rightarrow> fw_section option" where
  "read_fw_section p =
     (if length p < sizeof_fw_section then None
      else Some \<lparr>sec_type = le_word (take 4 p),
                 sec_da = le_word (take 8 (drop 4 p)),
                 sec_len = le_word (take 4 (drop 12 p))\<rparr>)"

definition read_content :: "u8 list \<Rightarrow> u32 \<Rightarrow> u8 list option" where
  "read_content p len =
     (if length p < sizeof_fw_section + unat len then None
      else Some (take (unat len) (drop sizeof_fw_section p)))"

definition read_fw_resource :: "u8 list \<Rightarrow> fw_resource" where
  "read_fw_resource p =
     \<lparr>rsc_type = le_word (take 4 p),
      rsc_da = le_word (take 8 (drop 4 p)),
      rsc_pa = le_word (take 8 (drop 12 p)),
      rsc_len = le_word (take 4 (drop 20 p)),
      rsc_flags = le_word (take 4 (drop 24 p)),
      rsc_name = take 48 (drop 28 p)\<rparr>"

text \<open>
  The array of resource entries that \<open>rproc_handle_resources\<close> walks in a mapped section
  of \<open>len\<close> bytes: one entry for each full \<open>sizeof(struct fw_resource)\<close> bytes (the loop
  runs \<open>while (len >= sizeof(*rsc))\<close>, advancing \<open>rsc\<close> and decreasing \<open>len\<close> by one
  entry); trailing bytes that do not make an entry are not visited.
\<close>

function fw_resources :: "u8 list \<Rightarrow> fw_resource list" where
  "fw_resources bs =
     (if length bs < sizeof_fw_resource then []
      else read_fw_resource (take sizeof_fw_resource bs) # fw_resources (drop sizeof_fw_resource bs))"
  by pat_completeness auto
termination
  by (relation "measure length") (auto simp: sizeof_fw_resource_def)

declare fw_resources.simps [simp del]

subsection \<open>Booting\<close>

definition rproc_start :: "env \<Rightarrow> rproc \<Rightarrow> u64 \<Rightarrow> event list \<Rightarrow> rproc \<times> event list" where
  "rproc_start e r bootaddr log =
     (if mutex_lock_interruptible e \<noteq> 0
      then (r, log @ [Dev_err Cant_lock_remote_processor])
      else if ops_start e bootaddr \<noteq> 0
      then (r, log @ [Mutex_lock, Ops_start bootaddr (ops_start e bootaddr),
                      Dev_err Cant_start_rproc, Mutex_unlock])
      else (r\<lparr>state := RPROC_RUNNING\<rparr>,
            log @ [Mutex_lock, Ops_start bootaddr (ops_start e bootaddr), Mutex_unlock]))"

subsection \<open>The resource section\<close>

definition rproc_handle_trace_rsc ::
  "env \<Rightarrow> rproc \<Rightarrow> fw_resource \<Rightarrow> event list \<Rightarrow> int \<times> rproc \<times> event list" where
  "rproc_handle_trace_rsc e r rsc log =
     (case rproc_da_to_pa (memory_maps r) (rsc_da rsc) of
        Inl ret \<Rightarrow> (- EINVAL, r, log @ [Dev_err Invalid_device_address])
      | Inr pa \<Rightarrow>
          if trace_buf0 r \<noteq> 0 \<and> trace_buf1 r \<noteq> 0
          then (- EBUSY, r, log @ [Dev_warn Skipping_extra_trace_rsc])
          else
            (let p = ioremap_nocache e log pa (rsc_len rsc) in
             if p = 0
             then (- ENOMEM, r,
                   log @ [Ioremap pa (rsc_len rsc) p, Dev_err Cant_ioremap_trace_buffer])
             else if trace_buf0 r = 0
             then (0, r\<lparr>trace_len0 := rsc_len rsc, trace_buf0 := p\<rparr>,
                   log @ [Ioremap pa (rsc_len rsc) p, Debugfs_add_trace0])
             else (0, r\<lparr>trace_len1 := rsc_len rsc, trace_buf1 := p\<rparr>,
                   log @ [Ioremap pa (rsc_len rsc) p, Debugfs_add_trace1])))"

text \<open>
  The loop of \<open>rproc_handle_resources\<close> over the entries, with the boot address found
  so far. It stops at the first entry whose handling fails.
\<close>

fun handle_resources_loop ::
  "env \<Rightarrow> rproc \<Rightarrow> fw_resource list \<Rightarrow> u64 \<Rightarrow> event list \<Rightarrow> int \<times> rproc \<times> u64 \<times> event list" where
  "handle_resources_loop e r [] bootaddr log = (0, r, bootaddr, log)"
| "handle_resources_loop e r (rsc # rest) bootaddr log =
     (if rsc_type rsc = RSC_TRACE then
        (case rproc_handle_trace_rsc e r rsc log of
           (ret, r1, log1) \<Rightarrow>
             if ret \<noteq> 0 then (ret, r1, bootaddr, log1 @ [Dev_err Failed_handling_rsc])
             else handle_resources_loop e r1 rest bootaddr log1)
      else if rsc_type rsc = RSC_BOOTADDR then
        handle_resources_loop e r rest (rsc_da rsc)
          (if bootaddr \<noteq> 0 then log @ [Dev_warn Bootaddr_already_set] else log)
      else handle_resources_loop e r rest bootaddr log)"

definition rproc_handle_resources ::
  "env \<Rightarrow> rproc \<Rightarrow> fw_resource list \<Rightarrow> u64 \<Rightarrow> event list \<Rightarrow> int \<times> rproc \<times> u64 \<times> event list" where
  "rproc_handle_resources e r rscs bootaddr log =
     (case handle_resources_loop e r rscs bootaddr log of
        (ret, r1, bootaddr1, log1) \<Rightarrow>
          (ret, r1, bootaddr1,
           log1 @ (if ret \<noteq> 0 \<and> trace_buf0 r1 \<noteq> 0 then [Iounmap (trace_buf0 r1)] else [])
                @ (if ret \<noteq> 0 \<and> trace_buf1 r1 \<noteq> 0 then [Iounmap (trace_buf1 r1)] else [])))"

subsection \<open>Loading the sections\<close>

text \<open>
  \<open>left\<close> is an \<open>int\<close>; the loop compares it with \<open>sizeof(struct fw_section)\<close> (a
  \<open>size_t\<close>) and with \<open>section->len\<close> (a \<open>u32\<close>), so both comparisons are unsigned, and
  the subtractions wrap: \<open>left\<close> is a \<open>u32\<close> here. \<open>section\<close> is the pointer into the
  firmware buffer. The resource entries are read back from the mapping the section
  has just been copied to, which holds the bytes of the section.
\<close>

lemma process_fw_left_decreases:
  fixes left len :: u32
  assumes "16 < left" and "\<not> left - 16 < len"
  shows "unat (left - 16 - len) < unat left"
proof -
  have a: "unat (left - 16) = unat left - 16"
    using assms(1) by (simp add: unat_sub word_le_nat_alt word_less_nat_alt)
  have b: "unat len \<le> unat (left - 16)"
    using assms(2) by (simp add: word_less_nat_alt)
  have c: "unat (left - 16 - len) = unat (left - 16) - unat len"
    using b by (simp add: unat_sub word_le_nat_alt)
  have "16 < unat left"
    using assms(1) by (simp add: word_less_nat_alt)
  with a b c show ?thesis by arith
qed

function rproc_process_fw ::
  "env \<Rightarrow> rproc \<Rightarrow> u8 list \<Rightarrow> u32 \<Rightarrow> u64 \<Rightarrow> event list \<Rightarrow> (int \<times> rproc \<times> u64 \<times> event list) option" where
  "rproc_process_fw e r section left bootaddr log =
     (if 16 < left then
        (case read_fw_section section of
           None \<Rightarrow> None
         | Some s \<Rightarrow>
             if left - 16 < sec_len s
             then Some (- EINVAL, r, bootaddr, log @ [Dev_err Firmware_image_is_truncated])
             else
               (case rproc_da_to_pa (memory_maps r) (sec_da s) of
                  Inl ret \<Rightarrow> Some (ret, r, bootaddr, log @ [Dev_err Rproc_da_to_pa_failed])
                | Inr pa \<Rightarrow>
                    if ioremap_nocache e log pa (sec_len s) = 0
                    then Some (- ENOMEM, r, bootaddr,
                               log @ [Ioremap pa (sec_len s) 0, Dev_err Cant_ioremap])
                    else
                      (case read_content section (sec_len s) of
                         None \<Rightarrow> None
                       | Some content \<Rightarrow>
                           (case (if sec_type s = FW_RESOURCE
                                  then rproc_handle_resources e r (fw_resources content) bootaddr
                                         (log @ [Ioremap pa (sec_len s) (ioremap_nocache e log pa (sec_len s)),
                                                 Memcpy (ioremap_nocache e log pa (sec_len s)) content])
                                  else (0, r, bootaddr,
                                        log @ [Ioremap pa (sec_len s) (ioremap_nocache e log pa (sec_len s)),
                                               Memcpy (ioremap_nocache e log pa (sec_len s)) content])) of
                              (ret, r1, bootaddr1, log1) \<Rightarrow>
                                if ret \<noteq> 0
                                then Some (ret, r1, bootaddr1,
                                           log1 @ [Iounmap (ioremap_nocache e log pa (sec_len s))])
                                else rproc_process_fw e r1
                                       (drop (sizeof_fw_section + unat (sec_len s)) section)
                                       (left - 16 - sec_len s) bootaddr1
                                       (log1 @ [Iounmap (ioremap_nocache e log pa (sec_len s))])))))
      else Some (0, r, bootaddr, log))"
  by pat_completeness auto
termination
  by (relation "measure (\<lambda>(e, r, section, left, bootaddr, log). unat left)")
     (auto simp: process_fw_left_decreases)

declare rproc_process_fw.simps [simp del]

definition fw_magic :: "u8 list" where
  "fw_magic = [0x52, 0x50, 0x52, 0x43]"

text \<open>
  The callback of the asynchronous fetch. \<open>fw\<close> is \<open>None\<close> when the fetch delivered no
  image. \<open>left\<close> is computed in \<open>size_t\<close> and stored into an \<open>int\<close>.
\<close>

definition rproc_load_fw :: "env \<Rightarrow> rproc \<Rightarrow> u8 list option \<Rightarrow> event list \<Rightarrow> (rproc \<times> event list) option" where
  "rproc_load_fw e r fw log =
     (case fw of
        None \<Rightarrow> Some (r\<lparr>firmware_loading_complete := True\<rparr>, log @ [Dev_err Failed_to_load])
      | Some data \<Rightarrow>
          if length data < sizeof_fw_header
          then Some (r\<lparr>firmware_loading_complete := True\<rparr>,
                     log @ [Dev_err Image_is_too_small, Release_firmware])
          else if take 4 data \<noteq> fw_magic
          then Some (r\<lparr>firmware_loading_complete := True\<rparr>,
                     log @ [Dev_err Image_is_corrupted_bad_magic, Release_firmware])
          else
            (let header_len = (le_word (take 4 (drop 8 data)) :: u32);
                 section = drop (sizeof_fw_header + unat header_len) data;
                 left = (of_nat (length data) :: u32) - of_nat sizeof_fw_header - header_len
             in case rproc_process_fw e r section left 0 log of
                  None \<Rightarrow> None
                | Some (ret, r1, bootaddr, log1) \<Rightarrow>
                    if ret \<noteq> 0
                    then Some (r1\<lparr>firmware_loading_complete := True\<rparr>,
                               log1 @ [Dev_err Failed_to_process_the_image, Release_firmware])
                    else
                      (case rproc_start e r1 bootaddr log1 of
                         (r2, log2) \<Rightarrow>
                           Some (r2\<lparr>firmware_loading_complete := True\<rparr>,
                                 log2 @ [Release_firmware]))))"

subsection \<open>The registry\<close>

text \<open>
  The list \<open>rprocs\<close> is the list of the records, in the order of registration.
  \<open>__find_rproc_by_name\<close> returns the first record of that name, \<open>NULL\<close> when the list
  holds none, and its local variable as declared, never assigned, when the list is
  empty.
\<close>

datatype find_result = Found nat | Null | Uninitialised

fun find_from :: "rproc list \<Rightarrow> string \<Rightarrow> nat \<Rightarrow> find_result" where
  "find_from [] nm i = Null"
| "find_from (r # rs) nm i = (if name r = nm then Found i else find_from rs nm (Suc i))"

definition find_rproc_by_name :: "rproc list \<Rightarrow> string \<Rightarrow> find_result" where
  "find_rproc_by_name rprocs nm = (if rprocs = [] then Uninitialised else find_from rprocs nm 0)"




subsection \<open>Acquire and release\<close>

text \<open>
  \<open>rproc_get\<close> once the record is found: the flag says whether the handle is returned
  (\<open>ret = rproc\<close>) or \<open>NULL\<close>.
\<close>

definition rproc_get_found :: "env \<Rightarrow> rproc \<Rightarrow> event list \<Rightarrow> bool \<times> rproc \<times> event list" where
  "rproc_get_found e r log =
     (if mutex_lock_interruptible e \<noteq> 0
      then (False, r, log @ [Dev_err Cant_lock_remote_processor])
      else if \<not> try_module_get e
      then (False, r, log @ [Mutex_lock, Dev_err Cant_get_owner, Mutex_unlock])
      else if count r \<noteq> 0
      then (True, r\<lparr>count := count r + 1\<rparr>, log @ [Mutex_lock, Try_module_get, Mutex_unlock])
      else
        (let r1 = r\<lparr>count := count r + 1, firmware_loading_complete := False\<rparr> in
         case firmware r1 of
           None \<Rightarrow>
             (False, r1\<lparr>firmware_loading_complete := True, count := count r1 - 1\<rparr>,
              log @ [Mutex_lock, Try_module_get, Dev_err No_firmware_to_load,
                     Module_put, Mutex_unlock])
         | Some f \<Rightarrow>
             if request_firmware_nowait e f < 0
             then (False, r1\<lparr>firmware_loading_complete := True, count := count r1 - 1\<rparr>,
                   log @ [Mutex_lock, Try_module_get,
                          Request_firmware f (request_firmware_nowait e f),
                          Dev_err Request_firmware_nowait_failed, Module_put, Mutex_unlock])
             else (True, r1\<lparr>state := RPROC_LOADING\<rparr>,
                   log @ [Mutex_lock, Try_module_get,
                          Request_firmware f (request_firmware_nowait e f), Mutex_unlock])))"

text \<open>
  The handle that \<open>rproc_get\<close> returns is the position of the record in the registry.
\<close>

definition rproc_get ::
  "env \<Rightarrow> rproc list \<Rightarrow> string \<Rightarrow> event list \<Rightarrow> (nat option \<times> rproc list \<times> event list) option" where
  "rproc_get e rprocs nm log =
     (case find_rproc_by_name rprocs nm of
        Uninitialised \<Rightarrow> None
      | Null \<Rightarrow> Some (None, rprocs, log @ [Pr_err Cant_find_remote_processor])
      | Found i \<Rightarrow>
          (case rproc_get_found e (rprocs ! i) log of
             (ok, r1, log1) \<Rightarrow> Some (if ok then Some i else None, rprocs[i := r1], log1)))"

text \<open>
  \<open>rproc_put\<close> waits for the completion: while the flag is clear it does not return,
  which is the result \<open>None\<close>. The label \<open>out\<close> unlocks the mutex and calls
  \<open>module_put\<close> when \<open>ret\<close> is 0.
\<close>

definition rproc_put :: "env \<Rightarrow> rproc \<Rightarrow> event list \<Rightarrow> (rproc \<times> event list) option" where
  "rproc_put e r log =
     (if count r = 0 then Some (r, log @ [Dev_err Asymmetric_put, Mutex_unlock])
      else if \<not> firmware_loading_complete r then None
      else if mutex_lock_interruptible e \<noteq> 0 then Some (r, log @ [Dev_err Cant_lock_rproc])
      else if count r - 1 \<noteq> 0
      then Some (r\<lparr>count := count r - 1\<rparr>, log @ [Mutex_lock, Mutex_unlock, Module_put])
      else
        (let log1 = log @ [Mutex_lock]
                        @ (if trace_buf0 r \<noteq> 0 then [Iounmap (trace_buf0 r)] else [])
                        @ (if trace_buf1 r \<noteq> 0 then [Iounmap (trace_buf1 r)] else []);
             r1 = r\<lparr>count := count r - 1, trace_buf1 := 0, trace_buf0 := 0\<rparr>
         in if state r1 = RPROC_RUNNING \<and> ops_stop e \<noteq> 0
            then Some (r1, log1 @ [Ops_stop (ops_stop e), Dev_err Cant_stop_rproc, Mutex_unlock])
            else Some (r1\<lparr>state := RPROC_OFFLINE\<rparr>,
                       log1 @ (if state r1 = RPROC_RUNNING then [Ops_stop (ops_stop e)] else [])
                            @ [Mutex_unlock, Module_put])))"

subsection \<open>The address translator in the words of the specification\<close>

text \<open>
  The translator as the specification words it, to compare \<open>rproc_da_to_pa\<close> with.
  Addresses are the numbers that the machine values stand for, and sums and differences
  are those of numbers. An entry matches when \<open>entry.da \<le> da < entry.da + entry.size\<close>,
  and the translation is \<open>entry.pa + (da - entry.da)\<close> for the first entry that matches.
  The map is the sequence of entries before the zero-size sentinel. In identity mode
  the address must fit in the host physical-address width. \<open>None\<close> is the error
  InvalidAddress.
\<close>

definition map_entries :: "rproc_mem_entry list \<Rightarrow> rproc_mem_entry list" where
  "map_entries ms = takeWhile (\<lambda>entry. me_size entry \<noteq> 0) ms"

definition in_range :: "rproc_mem_entry \<Rightarrow> u64 \<Rightarrow> bool" where
  "in_range entry da \<longleftrightarrow>
     unat (me_da entry) \<le> unat da \<and> unat da < unat (me_da entry) + unat (me_size entry)"

definition translate :: "rproc_mem_entry list option \<Rightarrow> u64 \<Rightarrow> nat option" where
  "translate maps da =
     (case maps of
        None \<Rightarrow> if unat da < 2 ^ LENGTH(32) then Some (unat da) else None
      | Some ms \<Rightarrow>
          (case find (\<lambda>entry. in_range entry da) (map_entries ms) of
             None \<Rightarrow> None
           | Some entry \<Rightarrow> Some (unat (me_pa entry) + (unat da - unat (me_da entry)))))"

subsection \<open>The address translator with the arithmetic of the machine\<close>

text \<open>
  The same translator where the end of a range is a \<open>u64\<close> value, that is the sum
  modulo \<open>2 ^ 64\<close>, and the translation is a host physical address, that is the sum
  modulo \<open>2 ^ 32\<close>. A map is plain when neither makes a difference: the end of every
  range is below \<open>2 ^ 64\<close>, and every range is sent below \<open>2 ^ 32\<close>.
\<close>

definition in_range_u64 :: "rproc_mem_entry \<Rightarrow> u64 \<Rightarrow> bool" where
  "in_range_u64 entry da \<longleftrightarrow>
     unat (me_da entry) \<le> unat da \<and>
     unat da < (unat (me_da entry) + unat (me_size entry)) mod 2 ^ 64"

definition translate_machine :: "rproc_mem_entry list option \<Rightarrow> u64 \<Rightarrow> nat option" where
  "translate_machine maps da =
     (case maps of
        None \<Rightarrow> if unat da < 2 ^ LENGTH(32) then Some (unat da) else None
      | Some ms \<Rightarrow>
          (case find (\<lambda>entry. in_range_u64 entry da) (map_entries ms) of
             None \<Rightarrow> None
           | Some entry \<Rightarrow>
               Some ((unat (me_pa entry) + (unat da - unat (me_da entry))) mod 2 ^ 32)))"

definition plain_map :: "rproc_mem_entry list option \<Rightarrow> bool" where
  "plain_map maps \<longleftrightarrow>
     (case maps of
        None \<Rightarrow> True
      | Some ms \<Rightarrow>
          (\<forall>entry \<in> set (map_entries ms).
             unat (me_da entry) + unat (me_size entry) < 2 ^ 64 \<and>
             unat (me_pa entry) + unat (me_size entry) \<le> 2 ^ 32))"

text \<open>
  The answer of \<open>rproc_da_to_pa\<close> and the answer of a translator, as an error number
  or the number of the address.
\<close>

definition address :: "int + phys_addr_t \<Rightarrow> int + nat" where
  "address res = (case res of Inl ret \<Rightarrow> Inl ret | Inr pa \<Rightarrow> Inr (unat pa))"

definition answer :: "nat option \<Rightarrow> int + nat" where
  "answer t = (case t of None \<Rightarrow> Inl (- EINVAL) | Some n \<Rightarrow> Inr n)"

subsection \<open>What the properties count\<close>

text \<open>The calls of \<open>module_put\<close> and of \<open>try_module_get\<close> among some events.\<close>

definition module_puts :: "event list \<Rightarrow> nat" where
  "module_puts log = length (filter (\<lambda>ev. ev = Module_put) log)"

definition module_gets :: "event list \<Rightarrow> nat" where
  "module_gets log = length (filter (\<lambda>ev. ev = Try_module_get) log)"

text \<open>
  A trace buffer is bound where \<open>DEBUGFS_ADD\<close> exposes it; \<open>bound_slots\<close> is the number
  of trace slots of the record that hold a buffer.
\<close>

definition is_bind :: "event \<Rightarrow> bool" where
  "is_bind ev \<longleftrightarrow> ev = Debugfs_add_trace0 \<or> ev = Debugfs_add_trace1"

definition trace_binds :: "event list \<Rightarrow> nat" where
  "trace_binds log = length (filter is_bind log)"

definition bound_slots :: "rproc \<Rightarrow> nat" where
  "bound_slots r = (if trace_buf0 r \<noteq> 0 then 1 else 0) + (if trace_buf1 r \<noteq> 0 then 1 else 0)"

text \<open>
  The boot address that a walk over the entries \<open>rscs\<close> leaves, when it started with
  \<open>bootaddr\<close>: the device address of the last BOOTADDR entry. \<open>bootaddr_warnings\<close> is the
  number of BOOTADDR entries met while the address recorded so far was not 0, and
  \<open>warnings\<close> the number of warnings about it among some events.
\<close>

definition last_bootaddr :: "fw_resource list \<Rightarrow> u64 \<Rightarrow> u64" where
  "last_bootaddr rscs bootaddr =
     (case filter (\<lambda>rsc. rsc_type rsc = RSC_BOOTADDR) rscs of
        [] \<Rightarrow> bootaddr
      | x # xs \<Rightarrow> rsc_da (last (x # xs)))"

fun bootaddr_warnings :: "fw_resource list \<Rightarrow> u64 \<Rightarrow> nat" where
  "bootaddr_warnings [] bootaddr = 0"
| "bootaddr_warnings (rsc # rest) bootaddr =
     (if rsc_type rsc = RSC_BOOTADDR
      then (if bootaddr \<noteq> 0 then 1 else 0) + bootaddr_warnings rest (rsc_da rsc)
      else bootaddr_warnings rest bootaddr)"

definition warnings :: "event list \<Rightarrow> nat" where
  "warnings log = length (filter (\<lambda>ev. ev = Dev_warn Bootaddr_already_set) log)"

subsection \<open>The body of the section loop\<close>

text \<open>
  The body of the loop of \<open>rproc_process_fw\<close> for the section \<open>s\<close> read at \<open>section\<close>,
  from the check of \<open>left\<close> to the \<open>iounmap\<close>: the unfolding of the loop used in the
  proofs.
\<close>

definition section_body ::
  "env \<Rightarrow> rproc \<Rightarrow> fw_section \<Rightarrow> u8 list \<Rightarrow> u32 \<Rightarrow> u64 \<Rightarrow> event list \<Rightarrow>
   (int \<times> rproc \<times> u64 \<times> event list) option" where
  "section_body e r s section left bootaddr log =
     (if left - 16 < sec_len s
      then Some (- EINVAL, r, bootaddr, log @ [Dev_err Firmware_image_is_truncated])
      else
        (case rproc_da_to_pa (memory_maps r) (sec_da s) of
           Inl ret \<Rightarrow> Some (ret, r, bootaddr, log @ [Dev_err Rproc_da_to_pa_failed])
         | Inr pa \<Rightarrow>
             if ioremap_nocache e log pa (sec_len s) = 0
             then Some (- ENOMEM, r, bootaddr,
                        log @ [Ioremap pa (sec_len s) 0, Dev_err Cant_ioremap])
             else
               (case read_content section (sec_len s) of
                  None \<Rightarrow> None
                | Some content \<Rightarrow>
                    (case (if sec_type s = FW_RESOURCE
                           then rproc_handle_resources e r (fw_resources content) bootaddr
                                  (log @ [Ioremap pa (sec_len s) (ioremap_nocache e log pa (sec_len s)),
                                          Memcpy (ioremap_nocache e log pa (sec_len s)) content])
                           else (0, r, bootaddr,
                                 log @ [Ioremap pa (sec_len s) (ioremap_nocache e log pa (sec_len s)),
                                        Memcpy (ioremap_nocache e log pa (sec_len s)) content])) of
                       (ret, r1, bootaddr1, log1) \<Rightarrow>
                         Some (ret, r1, bootaddr1,
                               log1 @ [Iounmap (ioremap_nocache e log pa (sec_len s))])))))"

subsection \<open>Section areas\<close>

text \<open>
  A whole section is a section header followed by exactly the bytes of content that the
  header declares. \<open>sections_run\<close> is the body of the loop run on whole sections one
  after the other, each with nothing but itself left to read, on the record, the boot
  address and the events that the one before has left, up to the first that fails:
  what it is to process these sections, and no other.
\<close>

definition is_whole :: "u8 list \<Rightarrow> bool" where
  "is_whole sb \<longleftrightarrow>
     (case read_fw_section sb of
        None \<Rightarrow> False
      | Some s \<Rightarrow> length sb = sizeof_fw_section + unat (sec_len s))"

fun sections_run ::
  "env \<Rightarrow> u8 list list \<Rightarrow> rproc \<Rightarrow> u64 \<Rightarrow> event list \<Rightarrow>
   (int \<times> rproc \<times> u64 \<times> event list) option" where
  "sections_run e [] r bootaddr log = Some (0, r, bootaddr, log)"
| "sections_run e (sb # secs) r bootaddr log =
     (case read_fw_section sb of
        None \<Rightarrow> None
      | Some s \<Rightarrow>
          (case section_body e r s sb (of_nat (length sb)) bootaddr log of
             None \<Rightarrow> None
           | Some (ret, r1, bootaddr1, log1) \<Rightarrow>
               if ret \<noteq> 0 then Some (ret, r1, bootaddr1, log1)
               else sections_run e secs r1 bootaddr1 log1))"

subsection \<open>What the pipeline writes\<close>

text \<open>
  The record with its trace fields blanked: what the firmware pipeline before
  \<open>rproc_start\<close> never writes.
\<close>

definition untraced :: "rproc \<Rightarrow> rproc" where
  "untraced r = r\<lparr>trace_buf0 := 0, trace_buf1 := 0, trace_len0 := 0, trace_len1 := 0\<rparr>"

text \<open>
  What a part of the pipeline may do to the record and the events: append events,
  bind as many trace buffers as it fills slots, and write nothing but trace fields.
\<close>

definition load_step :: "rproc \<Rightarrow> event list \<Rightarrow> rproc \<Rightarrow> event list \<Rightarrow> bool" where
  "load_step r log r1 log1 \<longleftrightarrow>
     untraced r1 = untraced r \<and>
     (\<exists>evs. log1 = log @ evs \<and> trace_binds evs + bound_slots r = bound_slots r1)"

subsection \<open>Example inputs\<close>

text \<open>
  A table of two overlapping ranges, the sentinel, and an entry after the sentinel.
\<close>

definition example_maps :: "rproc_mem_entry list" where
  "example_maps =
     [\<lparr>me_da = 0x1000, me_pa = 0x80000000, me_size = 0x100\<rparr>,
      \<lparr>me_da = 0x1080, me_pa = 0x90000000, me_size = 0x1000\<rparr>,
      \<lparr>me_da = 0, me_pa = 0, me_size = 0\<rparr>,
      \<lparr>me_da = 0x5000, me_pa = 0xA0000000, me_size = 0x100\<rparr>]"

text \<open>
  A table whose only range crosses \<open>2 ^ 64\<close>, and one whose only range is sent across
  \<open>2 ^ 32\<close>.
\<close>

definition wrapping_maps :: "rproc_mem_entry list" where
  "wrapping_maps = [\<lparr>me_da = 0xFFFFFFFFFFFFFF00, me_pa = 0x1000, me_size = 0x200\<rparr>]"

definition high_maps :: "rproc_mem_entry list" where
  "high_maps = [\<lparr>me_da = 0, me_pa = 0xFFFFFFF0, me_size = 0x100\<rparr>]"

text \<open>
  An environment where everything succeeds and every mapping is at \<open>0xC0000000\<close> plus
  the physical address; one whose platform \<open>stop\<close> handler fails with \<open>-EIO\<close>; one that
  refuses to schedule the firmware fetch.
\<close>

definition example_env :: env where
  "example_env =
     \<lparr>ioremap_nocache = (\<lambda>log pa len. 0xC0000000 + pa),
      mutex_lock_interruptible = 0,
      ops_start = (\<lambda>bootaddr. 0),
      ops_stop = 0,
      try_module_get = True,
      request_firmware_nowait = (\<lambda>f. 0),
      kzalloc_ok = True,
      rproc_dbg = 0,
      debugfs_create_dir = 0\<rparr>"

definition stop_fails_env :: env where
  "stop_fails_env = example_env\<lparr>ops_stop := - 5\<rparr>"

definition fetch_fails_env :: env where
  "fetch_fails_env = example_env\<lparr>request_firmware_nowait := (\<lambda>f. - ENOMEM)\<rparr>"

text \<open>
  A processor as \<open>rproc_register\<close> creates it; the same with no firmware name; after the
  first \<open>rproc_get\<close>; after it has come up for one user; with both trace slots bound.
\<close>

definition example_rproc :: rproc where
  "example_rproc =
     \<lparr>name = ''p0'', memory_maps = None, firmware = Some ''p0.bin'', count = 0,
      state = RPROC_OFFLINE, dbg_dir = 0, trace_buf0 = 0, trace_buf1 = 0,
      trace_len0 = 0, trace_len1 = 0, firmware_loading_complete = False\<rparr>"

definition no_firmware_rproc :: rproc where
  "no_firmware_rproc = example_rproc\<lparr>firmware := None\<rparr>"

definition loading_rproc :: rproc where
  "loading_rproc = example_rproc\<lparr>count := 1, state := RPROC_LOADING\<rparr>"

definition running_rproc :: rproc where
  "running_rproc =
     example_rproc\<lparr>count := 1, state := RPROC_RUNNING, firmware_loading_complete := True\<rparr>"




text \<open>
  An image of the size of its header whose magic is \<open>XXXX\<close>; an image whose section
  area is one section header (a DATA section at \<open>0x1000\<close> of length 0); a section header
  that declares four bytes of content, that section with its four bytes and with two
  of them, and an image that ends after the header of that section.
\<close>

definition bad_magic_image :: "u8 list" where
  "bad_magic_image = [0x58, 0x58, 0x58, 0x58, 1, 0, 0, 0, 0, 0, 0, 0]"

definition header_only_image :: "u8 list" where
  "header_only_image =
     [0x52, 0x50, 0x52, 0x43, 1, 0, 0, 0, 0, 0, 0, 0,
      2, 0, 0, 0, 0, 0x10, 0, 0, 0, 0, 0, 0, 0, 0, 0, 0]"

definition four_byte_section :: "u8 list" where
  "four_byte_section = [2, 0, 0, 0, 0, 0x10, 0, 0, 0, 0, 0, 0, 4, 0, 0, 0]"

definition whole_section :: "u8 list" where
  "whole_section = four_byte_section @ [0xDE, 0xAD, 0xBE, 0xEF]"

definition cut_section :: "u8 list" where
  "cut_section = four_byte_section @ [0xDE, 0xAD]"

definition cut_image :: "u8 list" where
  "cut_image = [0x52, 0x50, 0x52, 0x43, 1, 0, 0, 0, 0, 0, 0, 0] @ four_byte_section"

text \<open>
  The header of a DATA section at \<open>0x2000\<close> of length 0, and an image whose section area
  is the section of four bytes followed by that header.
\<close>

definition tail_header :: "u8 list" where
  "tail_header = [2, 0, 0, 0, 0, 0x20, 0, 0, 0, 0, 0, 0, 0, 0, 0, 0]"

definition tail_image :: "u8 list" where
  "tail_image = [0x52, 0x50, 0x52, 0x43, 1, 0, 0, 0, 0, 0, 0, 0] @ whole_section @ tail_header"

text \<open>Resource entries: a boot address, and a trace buffer of \<open>len\<close> bytes at \<open>da\<close>.\<close>

definition boot_entry :: "u64 \<Rightarrow> fw_resource" where
  "boot_entry da =
     \<lparr>rsc_type = RSC_BOOTADDR, rsc_da = da, rsc_pa = 0, rsc_len = 0, rsc_flags = 0,
      rsc_name = []\<rparr>"


text \<open>
  The bytes of a BOOTADDR entry with the device address \<open>da\<close> (eight bytes), and an
  image with one RESOURCE section of two BOOTADDR entries, \<open>0x10080000\<close> and then
  \<open>0x20000000\<close>. \<open>starts\<close> are the calls of the platform's \<open>start\<close> among some events.
\<close>

definition boot_bytes :: "u8 list \<Rightarrow> u8 list" where
  "boot_bytes da = [5, 0, 0, 0] @ da @ replicate 64 0"

definition two_boot_image :: "u8 list" where
  "two_boot_image =
     [0x52, 0x50, 0x52, 0x43, 1, 0, 0, 0, 0, 0, 0, 0] @
     [0, 0, 0, 0, 0, 0x10, 0, 0, 0, 0, 0, 0, 152, 0, 0, 0] @
     boot_bytes [0, 0, 0x08, 0x10, 0, 0, 0, 0] @
     boot_bytes [0, 0, 0, 0x20, 0, 0, 0, 0]"

definition starts :: "event list \<Rightarrow> event list" where
  "starts log = filter (\<lambda>ev. case ev of Ops_start bootaddr ret \<Rightarrow> True | _ \<Rightarrow> False) log"



section \<open>Properties\<close>

subsection \<open>Address translation\<close>

lemma unat_ucast_u32_u64: "unat (ucast (a :: 32 word) :: 64 word) = unat a"
proof -
  have "unat a < 2 ^ 32" using unsigned_less [of a] by simp
  then have "unat a < 2 ^ 64" by simp
  then show ?thesis by (simp add: unsigned_ucast_eq take_bit_nat_eq_self)
qed

lemma unat_ucast_sum: 
  "unat (ucast ((ucast (a :: 32 word) :: 64 word) + b) :: 32 word) = (unat a + unat b) mod 2 ^ 32"
proof -
  have "(2::nat) ^ 32 dvd 2 ^ 64" by (simp add: le_imp_power_dvd)
  then have m: "((unat a + unat b) mod 2 ^ 64) mod 2 ^ 32 = (unat a + unat b) mod 2 ^ 32"
    by (rule mod_mod_cancel)
  have "unat (ucast ((ucast a :: 64 word) + b) :: 32 word) = unat ((ucast a :: 64 word) + b) mod 2 ^ 32"
    by (simp add: unsigned_ucast_eq take_bit_eq_mod)
  also have "unat ((ucast a :: 64 word) + b) = (unat a + unat b) mod 2 ^ 64"
    by (simp only: unat_word_ariths unat_ucast_u32_u64) simp
  finally show ?thesis using m by simp
qed

lemma unat_sum_ucast:
  "unat ((a :: 32 word) + (ucast (b :: 64 word) :: 32 word)) = (unat a + unat b) mod 2 ^ 32"
  by (simp add: unat_word_ariths unsigned_ucast_eq take_bit_eq_mod) presburger

text \<open>Storing the \<open>u64\<close> sum into a \<open>phys_addr_t\<close> is the sum of \<open>phys_addr_t\<close> values.\<close>

lemma ucast_sum_down:
  "(ucast ((ucast (a :: 32 word) :: 64 word) + b) :: 32 word) = a + ucast b"
  by (simp add: word_unat_eq_iff unat_ucast_sum unat_sum_ucast)

lemma not_zero_u32: "(NOT 0 :: 32 word) = 4294967295"
  by simp

lemma identity_bound: "(ucast (ucast (NOT 0 :: u32) :: phys_addr_t) :: u64) = 0xFFFFFFFF"
  unfolding not_zero_u32 by simp

lemma above_identity_bound: "(0xFFFFFFFF :: u64) < da \<longleftrightarrow> \<not> unat da < 2 ^ 32"
  by (simp add: word_less_nat_alt not_less) arith

lemma fits_ucast: "unat (da :: u64) < 2 ^ 32 \<Longrightarrow> unat (ucast da :: 32 word) = unat da"
  by (simp add: unsigned_ucast_eq take_bit_nat_eq_self)

text \<open>
  The test of \<open>rproc_da_to_pa\<close> on an entry, in numbers: the end of the range is taken
  modulo \<open>2 ^ 64\<close>, so an entry whose end is not a \<open>u64\<close> value matches no address at
  or above its start.
\<close>

lemma in_range_u64_word:
  "me_da entry \<le> da \<and> da < me_da entry + ucast (me_size entry) \<longleftrightarrow> in_range_u64 entry da"
proof -
  have "unat (me_da entry + ucast (me_size entry)) =
          (unat (me_da entry) + unat (me_size entry)) mod 2 ^ 64"
    by (simp only: unat_word_ariths unat_ucast_u32_u64) simp
  then show ?thesis by (simp add: in_range_u64_def word_le_nat_alt word_less_nat_alt)
qed

lemma da_to_pa_maps_find:
  "da_to_pa_maps ms da =
     (case find (\<lambda>entry. in_range_u64 entry da) (map_entries ms) of
        None \<Rightarrow> Inl (- EINVAL)
      | Some entry \<Rightarrow> Inr (me_pa entry + ucast (da - me_da entry)))"
  by (induction ms) (simp_all add: map_entries_def in_range_u64_word ucast_sum_down Let_def)

lemma unat_translation:
  assumes "in_range_u64 entry da"
  shows "unat (me_pa entry + ucast (da - me_da entry)) =
           (unat (me_pa entry) + (unat da - unat (me_da entry))) mod 2 ^ 32"
proof -
  from assms have "me_da entry \<le> da" by (simp add: in_range_u64_def word_le_nat_alt)
  then have "unat (da - me_da entry) = unat da - unat (me_da entry)" by (rule unat_sub)
  then show ?thesis by (simp add: unat_sum_ucast)
qed

lemma rproc_da_to_pa_None:
  "rproc_da_to_pa None da = (if unat da < 2 ^ 32 then Inr (ucast da) else Inl (- EINVAL))"
proof -
  have "rproc_da_to_pa None da = (if (0xFFFFFFFF :: u64) < da then Inl (- EINVAL) else Inr (ucast da))"
    unfolding rproc_da_to_pa_def identity_bound by simp
  then show ?thesis by (simp add: above_identity_bound)
qed

lemma rproc_da_to_pa_Some: "rproc_da_to_pa (Some ms) da = da_to_pa_maps ms da"
  by (simp add: rproc_da_to_pa_def)

lemma rproc_da_to_pa_machine:
  "address (rproc_da_to_pa maps da) = answer (translate_machine maps da)"
proof (cases maps)
  case None
  then show ?thesis
    by (simp add: rproc_da_to_pa_None translate_machine_def address_def answer_def fits_ucast)
next
  case (Some ms)
  show ?thesis
  proof (cases "find (\<lambda>entry. in_range_u64 entry da) (map_entries ms)")
    case None
    with Some show ?thesis
      by (simp add: rproc_da_to_pa_Some da_to_pa_maps_find translate_machine_def address_def
            answer_def)
  next
    case (Some entry)
    then have "in_range_u64 entry da" by (auto simp add: find_Some_iff)
    from unat_translation [OF this] Some \<open>maps = Some ms\<close> show ?thesis
      by (simp add: rproc_da_to_pa_Some da_to_pa_maps_find translate_machine_def address_def
            answer_def)
  qed
qed

lemma plain_in_range:
  assumes "unat (me_da entry) + unat (me_size entry) < 2 ^ 64"
  shows "in_range_u64 entry da \<longleftrightarrow> in_range entry da"
  using assms by (simp add: in_range_u64_def in_range_def)

lemma plain_translate:
  assumes "plain_map maps"
  shows "translate_machine maps da = translate maps da"
proof (cases maps)
  case None
  then show ?thesis by (simp add: translate_machine_def translate_def)
next
  case (Some ms)
  with assms have p: "\<forall>entry \<in> set (map_entries ms).
      unat (me_da entry) + unat (me_size entry) < 2 ^ 64 \<and>
      unat (me_pa entry) + unat (me_size entry) \<le> 2 ^ 32"
    by (simp add: plain_map_def)
  have f: "find (\<lambda>entry. in_range_u64 entry da) (map_entries ms) =
           find (\<lambda>entry. in_range entry da) (map_entries ms)"
    using p by (intro find_cong) (auto simp add: plain_in_range)
  show ?thesis
  proof (cases "find (\<lambda>entry. in_range entry da) (map_entries ms)")
    case None
    with Some f show ?thesis by (simp add: translate_machine_def translate_def)
  next
    case found: (Some entry)
    then have m: "entry \<in> set (map_entries ms)" and r: "in_range entry da"
      by (auto simp add: find_Some_iff)
    from p m have "unat (me_pa entry) + unat (me_size entry) \<le> 2 ^ 32" by blast
    with r have "unat (me_pa entry) + (unat da - unat (me_da entry)) < 2 ^ 32"
      by (simp add: in_range_def) arith
    with Some f found show ?thesis by (simp add: translate_machine_def translate_def)
  qed
qed

text \<open>
  C7, as the code has it. \<open>rproc_da_to_pa\<close> computes the translator of the
  specification with the arithmetic of its types. With no map it succeeds exactly when
  \<open>da\<close> fits in the 32 bits of a host physical address, and the address returned is
  then \<open>da\<close> itself, as the claim says. With a map it takes the first entry before the
  sentinel with \<open>entry.da \<le> da < (entry.da + entry.size) mod 2 ^ 64\<close>, returns
  \<open>(entry.pa + (da - entry.da)) mod 2 ^ 32\<close>, and fails with \<open>-EINVAL\<close>
  (InvalidAddress) when there is no such entry. For a plain map, where no range ends
  at or beyond \<open>2 ^ 64\<close> and none is sent beyond \<open>2 ^ 32\<close>, that is the translator as
  the claim words it. The function is a function of the map and the address alone: it
  reads and writes no state.
\<close>

theorem rproc_da_to_pa_machine_arithmetic:
  "address (rproc_da_to_pa maps da) = answer (translate_machine maps da)
   \<and> address (rproc_da_to_pa None da) = answer (translate None da)
   \<and> (plain_map maps \<longrightarrow> address (rproc_da_to_pa maps da) = answer (translate maps da))"
proof (intro conjI impI)
  show "address (rproc_da_to_pa maps da) = answer (translate_machine maps da)"
    by (rule rproc_da_to_pa_machine)
  have "translate_machine None da = translate None da"
    by (simp add: translate_machine_def translate_def)
  then show "address (rproc_da_to_pa None da) = answer (translate None da)"
    by (simp add: rproc_da_to_pa_machine)
  assume "plain_map maps"
  then show "address (rproc_da_to_pa maps da) = answer (translate maps da)"
    by (simp add: rproc_da_to_pa_machine plain_translate)
qed

theorem rproc_da_to_pa_machine_arithmetic_witness:
  "plain_map (Some example_maps)
   \<and> address (rproc_da_to_pa (Some example_maps) 0x1090) = Inr 0x80000090
   \<and> address (rproc_da_to_pa (Some example_maps) 0x5010) = Inl (- EINVAL)
   \<and> address (rproc_da_to_pa None 0x100000000) = Inl (- EINVAL)
   \<and> address (rproc_da_to_pa None 0xFFFFFFFF) = Inr 0xFFFFFFFF
   \<and> address (rproc_da_to_pa (Some high_maps) 0x20) = Inr 0x10"
proof -
  have p: "plain_map (Some example_maps)"
    by (simp add: plain_map_def map_entries_def example_maps_def)
  note plain = rproc_da_to_pa_machine_arithmetic [THEN conjunct2, THEN conjunct2, THEN mp]
  from plain [of "Some example_maps" "0x1090", OF p]
  have 1: "address (rproc_da_to_pa (Some example_maps) 0x1090) = Inr 0x80000090"
    by (simp add: translate_def map_entries_def example_maps_def in_range_def answer_def)
  from plain [of "Some example_maps" "0x5010", OF p]
  have 2: "address (rproc_da_to_pa (Some example_maps) 0x5010) = Inl (- EINVAL)"
    by (simp add: translate_def map_entries_def example_maps_def in_range_def answer_def)
  from rproc_da_to_pa_machine_arithmetic [of None "0x100000000", THEN conjunct2, THEN conjunct1]
  have 3: "address (rproc_da_to_pa None 0x100000000) = Inl (- EINVAL)"
    by (simp add: translate_def answer_def)
  from rproc_da_to_pa_machine_arithmetic [of None "0xFFFFFFFF", THEN conjunct2, THEN conjunct1]
  have 4: "address (rproc_da_to_pa None 0xFFFFFFFF) = Inr 0xFFFFFFFF"
    by (simp add: translate_def answer_def)
  from rproc_da_to_pa_machine_arithmetic [of "Some high_maps" "0x20", THEN conjunct1]
  have 5: "address (rproc_da_to_pa (Some high_maps) 0x20) = Inr 0x10"
    by (simp add: translate_machine_def map_entries_def high_maps_def in_range_u64_def answer_def)
  from p 1 2 3 4 5 show ?thesis by simp
qed

text \<open>
  C7 as claimed fails where the arithmetic of the machine shows. The address
  \<open>0xFFFFFFFFFFFFFF80\<close> lies in the range of \<open>0x200\<close> bytes at \<open>0xFFFFFFFFFFFFFF00\<close>,
  whose translation is \<open>0x1080\<close>, and \<open>rproc_da_to_pa\<close> fails with \<open>-EINVAL\<close>: the end of
  the range is \<open>0x100\<close> as a \<open>u64\<close>. The address \<open>0x20\<close> lies in the range of \<open>0x100\<close>
  bytes at 0 that is mapped at \<open>0xFFFFFFF0\<close>, whose translation is \<open>0x100000010\<close>, and
  \<open>rproc_da_to_pa\<close> returns \<open>0x10\<close>.
\<close>

theorem rproc_da_to_pa_counterexample:
  "translate (Some wrapping_maps) 0xFFFFFFFFFFFFFF80 = Some 0x1080
   \<and> rproc_da_to_pa (Some wrapping_maps) 0xFFFFFFFFFFFFFF80 = Inl (- EINVAL)
   \<and> translate (Some high_maps) 0x20 = Some 0x100000010
   \<and> rproc_da_to_pa (Some high_maps) 0x20 = Inr 0x10"
  by (simp add: translate_def map_entries_def in_range_def wrapping_maps_def high_maps_def
        rproc_da_to_pa_def)

subsection \<open>Release\<close>

text \<open>
  C3, as the code has it. \<open>rproc_get\<close> pins the owner module on every call, and
  \<open>rproc_put\<close> unpins it on every release that takes the lock, whether or not the
  refcount reaches 0. The module reference is kept where \<open>ret\<close> is not 0 at \<open>out\<close>: on
  an asymmetric put, and on the last release when the state is RUNNING and the
  platform's \<open>stop\<close> fails. An interrupted lock returns before \<open>out\<close>.
\<close>

theorem rproc_put_module_put:
  assumes "count r = 0 \<or> firmware_loading_complete r"
  shows "\<exists>r' evs. rproc_put e r log = Some (r', log @ evs) \<and>
           module_puts evs =
             (if count r = 0 \<or> mutex_lock_interruptible e \<noteq> 0 \<or>
                 (count r = 1 \<and> state r = RPROC_RUNNING \<and> ops_stop e \<noteq> 0)
              then 0 else 1)"
  using assms by (auto simp add: rproc_put_def module_puts_def Let_def)

theorem rproc_put_module_put_witness:
  "rproc_put example_env (running_rproc\<lparr>count := 2\<rparr>) [] =
     Some (running_rproc\<lparr>count := 1\<rparr>, [Mutex_lock, Mutex_unlock, Module_put])
   \<and> module_puts [Mutex_lock, Mutex_unlock, Module_put] = 1"
proof -
  have h: "count (running_rproc\<lparr>count := 2\<rparr>) = 0 \<or>
           firmware_loading_complete (running_rproc\<lparr>count := 2\<rparr>)"
    by (simp add: running_rproc_def)
  show ?thesis
    using rproc_put_module_put [OF h, of example_env "[]"]
    by (auto simp add: rproc_put_def module_puts_def running_rproc_def example_rproc_def
          example_env_def)
qed

text \<open>
  C3 as claimed fails twice: a release that leaves the refcount at 1 calls
  \<open>module_put\<close>, and the last release of a running processor whose \<open>stop\<close> fails does
  not.
\<close>

theorem rproc_put_module_put_counterexample:
  "rproc_put example_env (running_rproc\<lparr>count := 2\<rparr>) [] =
     Some (running_rproc\<lparr>count := 1\<rparr>, [Mutex_lock, Mutex_unlock, Module_put])
   \<and> rproc_put stop_fails_env running_rproc [] =
     Some (running_rproc\<lparr>count := 0\<rparr>,
           [Mutex_lock, Ops_stop (- 5), Dev_err Cant_stop_rproc, Mutex_unlock])"
  by (simp add: rproc_put_def running_rproc_def example_rproc_def example_env_def
        stop_fails_env_def)

text \<open>
  C4, as the code has it. On the last release of a running processor whose \<open>stop\<close>
  fails, the error is reported and \<open>rproc_put\<close> leaves through \<open>out\<close>: the refcount is
  0 and the trace buffers are unmapped and cleared, but the state stays RUNNING and
  the owner module stays pinned.
\<close>

theorem rproc_put_stop_fails:
  assumes "count r = 1" and "state r = RPROC_RUNNING" and "firmware_loading_complete r"
    and "mutex_lock_interruptible e = 0" and "ops_stop e \<noteq> 0"
  shows "rproc_put e r log =
           Some (r\<lparr>count := 0, trace_buf1 := 0, trace_buf0 := 0\<rparr>,
                 log @ [Mutex_lock]
                     @ (if trace_buf0 r \<noteq> 0 then [Iounmap (trace_buf0 r)] else [])
                     @ (if trace_buf1 r \<noteq> 0 then [Iounmap (trace_buf1 r)] else [])
                     @ [Ops_stop (ops_stop e), Dev_err Cant_stop_rproc, Mutex_unlock])
         \<and> state (r\<lparr>count := 0, trace_buf1 := 0, trace_buf0 := 0\<rparr>) = RPROC_RUNNING"
  using assms by (simp add: rproc_put_def Let_def)

theorem rproc_put_stop_fails_witness:
  "rproc_put stop_fails_env (running_rproc\<lparr>trace_buf0 := 0xC0001000\<rparr>) [] =
     Some (running_rproc\<lparr>count := 0\<rparr>,
           [Mutex_lock, Iounmap 0xC0001000, Ops_stop (- 5), Dev_err Cant_stop_rproc,
            Mutex_unlock])
   \<and> state (running_rproc\<lparr>count := 0\<rparr>) = RPROC_RUNNING"
  using rproc_put_stop_fails [of "running_rproc\<lparr>trace_buf0 := 0xC0001000\<rparr>" stop_fails_env "[]"]
  by (simp add: running_rproc_def example_rproc_def example_env_def stop_fails_env_def)

text \<open>
  C4 as claimed fails on the last release of the running \<open>p0\<close> when \<open>stop\<close> returns
  \<open>-EIO\<close>: the state is RUNNING afterwards.
\<close>

theorem rproc_put_stop_fails_counterexample:
  "rproc_put stop_fails_env running_rproc [Try_module_get] =
     Some (running_rproc\<lparr>count := 0\<rparr>,
           [Try_module_get, Mutex_lock, Ops_stop (- 5), Dev_err Cant_stop_rproc, Mutex_unlock])
   \<and> state (running_rproc\<lparr>count := 0\<rparr>) \<noteq> RPROC_OFFLINE"
  by (simp add: rproc_put_def running_rproc_def example_rproc_def example_env_def
        stop_fails_env_def)

subsection \<open>The registry\<close>









subsection \<open>Acquire\<close>

lemma deref_rproc_record:
  "count r = 0 \<Longrightarrow>
     r\<lparr>count := count r + 1, firmware_loading_complete := False\<rparr>
      \<lparr>firmware_loading_complete := True,
       count := count (r\<lparr>count := count r + 1, firmware_loading_complete := False\<rparr>) - 1\<rparr>
     = r\<lparr>firmware_loading_complete := True\<rparr>"
  by (cases r) simp

text \<open>
  C10. A first-user \<open>rproc_get\<close> (refcount 0, lock taken, module pinned) that finds no
  firmware name, or whose fetch request is refused, returns \<open>NULL\<close>. The record it
  leaves is the record it found with the completion signalled: the refcount is back at
  0 and the state is the state it found, OFFLINE when it was. The module reference it
  took is released once.
\<close>

theorem rproc_get_first_user_fails:
  assumes "find_rproc_by_name rprocs nm = Found i"
    and "count (rprocs ! i) = 0"
    and "mutex_lock_interruptible e = 0" and "try_module_get e"
    and "firmware (rprocs ! i) = None \<or>
         (\<exists>f. firmware (rprocs ! i) = Some f \<and> request_firmware_nowait e f < 0)"
  shows "\<exists>evs. rproc_get e rprocs nm log =
             Some (None, rprocs[i := (rprocs ! i)\<lparr>firmware_loading_complete := True\<rparr>], log @ evs) \<and>
           module_gets evs = 1 \<and> module_puts evs = 1 \<and>
           count ((rprocs ! i)\<lparr>firmware_loading_complete := True\<rparr>) = 0 \<and>
           state ((rprocs ! i)\<lparr>firmware_loading_complete := True\<rparr>) = state (rprocs ! i) \<and>
           (state (rprocs ! i) = RPROC_OFFLINE \<longrightarrow>
              state ((rprocs ! i)\<lparr>firmware_loading_complete := True\<rparr>) = RPROC_OFFLINE)"
proof -
  let ?r = "rprocs ! i"
  from assms(2-5) have "\<exists>evs. rproc_get_found e ?r log =
      (False, ?r\<lparr>firmware_loading_complete := True\<rparr>, log @ evs) \<and>
      module_gets evs = 1 \<and> module_puts evs = 1"
    unfolding rproc_get_found_def Let_def
    by (auto simp add: deref_rproc_record module_gets_def module_puts_def
          simp del: rproc.simps rproc.update_convs)
  then show ?thesis
    using assms(1,2) by (auto simp add: rproc_get_def)
qed

theorem rproc_get_first_user_fails_witness:
  "(\<exists>evs. rproc_get example_env [no_firmware_rproc] ''p0'' [] =
            Some (None, [no_firmware_rproc\<lparr>firmware_loading_complete := True\<rparr>], evs) \<and>
          module_gets evs = 1 \<and> module_puts evs = 1)
   \<and> (\<exists>evs. rproc_get fetch_fails_env [example_rproc] ''p0'' [] =
            Some (None, [example_rproc\<lparr>firmware_loading_complete := True\<rparr>], evs) \<and>
          module_gets evs = 1 \<and> module_puts evs = 1)
   \<and> count (example_rproc\<lparr>firmware_loading_complete := True\<rparr>) = 0
   \<and> state (example_rproc\<lparr>firmware_loading_complete := True\<rparr>) = RPROC_OFFLINE
   \<and> rproc_get example_env [no_firmware_rproc] ''p0'' [] =
       Some (None, [no_firmware_rproc\<lparr>firmware_loading_complete := True\<rparr>],
             [Mutex_lock, Try_module_get, Dev_err No_firmware_to_load, Module_put, Mutex_unlock])
   \<and> rproc_get fetch_fails_env [example_rproc] ''p0'' [] =
       Some (None, [example_rproc\<lparr>firmware_loading_complete := True\<rparr>],
             [Mutex_lock, Try_module_get, Request_firmware ''p0.bin'' (- ENOMEM),
              Dev_err Request_firmware_nowait_failed, Module_put, Mutex_unlock])"
proof -
  have a: "find_rproc_by_name [no_firmware_rproc] ''p0'' = Found 0"
    by (simp add: find_rproc_by_name_def no_firmware_rproc_def example_rproc_def)
  have b: "find_rproc_by_name [example_rproc] ''p0'' = Found 0"
    by (simp add: find_rproc_by_name_def example_rproc_def)
  have a2: "count ([no_firmware_rproc] ! 0) = 0" "mutex_lock_interruptible example_env = 0"
    "try_module_get example_env"
    "firmware ([no_firmware_rproc] ! 0) = None \<or>
       (\<exists>f. firmware ([no_firmware_rproc] ! 0) = Some f \<and> request_firmware_nowait example_env f < 0)"
    by (simp_all add: no_firmware_rproc_def example_rproc_def example_env_def)
  have b2: "count ([example_rproc] ! 0) = 0" "mutex_lock_interruptible fetch_fails_env = 0"
    "try_module_get fetch_fails_env"
    "firmware ([example_rproc] ! 0) = None \<or>
       (\<exists>f. firmware ([example_rproc] ! 0) = Some f \<and> request_firmware_nowait fetch_fails_env f < 0)"
    by (simp_all add: example_rproc_def example_env_def fetch_fails_env_def ENOMEM_def)
  from rproc_get_first_user_fails [OF a a2, of "[]"]
  have 1: "\<exists>evs. rproc_get example_env [no_firmware_rproc] ''p0'' [] =
            Some (None, [no_firmware_rproc\<lparr>firmware_loading_complete := True\<rparr>], evs) \<and>
          module_gets evs = 1 \<and> module_puts evs = 1"
    by auto
  from rproc_get_first_user_fails [OF b b2, of "[]"]
  have 2: "(\<exists>evs. rproc_get fetch_fails_env [example_rproc] ''p0'' [] =
            Some (None, [example_rproc\<lparr>firmware_loading_complete := True\<rparr>], evs) \<and>
          module_gets evs = 1 \<and> module_puts evs = 1) \<and>
      count (example_rproc\<lparr>firmware_loading_complete := True\<rparr>) = 0 \<and>
      (state example_rproc = RPROC_OFFLINE \<longrightarrow>
         state (example_rproc\<lparr>firmware_loading_complete := True\<rparr>) = RPROC_OFFLINE)"
    by auto
  have o: "state example_rproc = RPROC_OFFLINE" by (simp add: example_rproc_def)
  have 3: "rproc_get example_env [no_firmware_rproc] ''p0'' [] =
     Some (None, [no_firmware_rproc\<lparr>firmware_loading_complete := True\<rparr>],
           [Mutex_lock, Try_module_get, Dev_err No_firmware_to_load, Module_put, Mutex_unlock])"
    unfolding rproc_get_def a
    by (simp add: rproc_get_found_def no_firmware_rproc_def example_rproc_def example_env_def)
  have 4: "rproc_get fetch_fails_env [example_rproc] ''p0'' [] =
     Some (None, [example_rproc\<lparr>firmware_loading_complete := True\<rparr>],
           [Mutex_lock, Try_module_get, Request_firmware ''p0.bin'' (- ENOMEM),
            Dev_err Request_firmware_nowait_failed, Module_put, Mutex_unlock])"
    unfolding rproc_get_def b
    by (simp add: rproc_get_found_def example_rproc_def example_env_def fetch_fails_env_def
          ENOMEM_def)
  from 1 2 o 3 4 show ?thesis by blast
qed

subsection \<open>Unfolding the section loop\<close>

lemma da_to_pa_maps_error: "da_to_pa_maps ms da = Inl ret \<Longrightarrow> ret = - EINVAL"
  by (induction ms) (auto simp add: Let_def split: if_splits)

lemma rproc_da_to_pa_error: "rproc_da_to_pa maps da = Inl ret \<Longrightarrow> ret = - EINVAL"
  by (cases maps) (auto simp add: rproc_da_to_pa_def da_to_pa_maps_error split: if_splits)

lemma errno_nonzero [simp]: "EINVAL \<noteq> 0" "ENOMEM \<noteq> 0" "EBUSY \<noteq> 0" "EINTR \<noteq> 0"
  by (simp_all add: EINVAL_def ENOMEM_def EBUSY_def EINTR_def)

lemma rproc_process_fw_unfold:
  "rproc_process_fw e r section left bootaddr log =
     (if 16 < left then
        (case read_fw_section section of
           None \<Rightarrow> None
         | Some s \<Rightarrow>
             (case section_body e r s section left bootaddr log of
                None \<Rightarrow> None
              | Some (ret, r1, bootaddr1, log1) \<Rightarrow>
                  if ret \<noteq> 0 then Some (ret, r1, bootaddr1, log1)
                  else rproc_process_fw e r1 (drop (sizeof_fw_section + unat (sec_len s)) section)
                         (left - 16 - sec_len s) bootaddr1 log1))
      else Some (0, r, bootaddr, log))"
  by (subst rproc_process_fw.simps)
     (auto simp add: section_body_def split: option.splits sum.splits prod.splits
        dest: rproc_da_to_pa_error)

lemma rproc_process_fw_stop:
  "\<not> 16 < left \<Longrightarrow> rproc_process_fw e r sect left bootaddr log = Some (0, r, bootaddr, log)"
  by (subst rproc_process_fw.simps) simp

lemma rproc_process_fw_16:
  "rproc_process_fw e r sect 16 bootaddr log = Some (0, r, bootaddr, log)"
  by (rule rproc_process_fw_stop) simp

lemma section_body_fits:
  "section_body e r s section left bootaddr log = Some (0, r1, bootaddr1, log1) \<Longrightarrow>
     \<not> left - 16 < sec_len s"
  by (auto simp add: section_body_def split: if_splits)

text \<open>Induction over the sections that the loop visits.\<close>

lemma rproc_process_fw_induct [consumes 1, case_names stop step]:
  assumes res: "rproc_process_fw e r sect left bootaddr log = Some res"
    and stop: "\<And>r bootaddr log. Q r bootaddr log (0, r, bootaddr, log)"
    and step: "\<And>r sect left bootaddr log s ret r1 bootaddr1 log1 res.
        16 < left \<Longrightarrow> read_fw_section sect = Some s \<Longrightarrow>
        section_body e r s sect left bootaddr log = Some (ret, r1, bootaddr1, log1) \<Longrightarrow>
        (ret \<noteq> 0 \<longrightarrow> res = (ret, r1, bootaddr1, log1)) \<Longrightarrow>
        (ret = 0 \<longrightarrow> Q r1 bootaddr1 log1 res) \<Longrightarrow>
        Q r bootaddr log res"
  shows "Q r bootaddr log res"
  using res
proof (induction "unat left" arbitrary: r sect left bootaddr log rule: less_induct)
  case less
  show ?case
  proof (cases "16 < left")
    case False
    with less.prems have "res = (0, r, bootaddr, log)"
      by (subst (asm) rproc_process_fw_unfold) simp
    then show ?thesis using stop by simp
  next
    case True
    with less.prems obtain s where s: "read_fw_section sect = Some s"
      by (subst (asm) rproc_process_fw_unfold) (auto split: option.splits)
    with True less.prems obtain ret r1 bootaddr1 log1 where
      b: "section_body e r s sect left bootaddr log = Some (ret, r1, bootaddr1, log1)"
      by (subst (asm) rproc_process_fw_unfold) (auto split: option.splits)
    show ?thesis
    proof (cases "ret = 0")
      case False
      with True s b less.prems have "res = (ret, r1, bootaddr1, log1)"
        by (subst (asm) rproc_process_fw_unfold) simp
      with False show ?thesis using step [OF True s b] by simp
    next
      case z: True
      with True s b less.prems have
        next_eq: "rproc_process_fw e r1 (drop (sizeof_fw_section + unat (sec_len s)) sect)
              (left - 16 - sec_len s) bootaddr1 log1 = Some res"
        by (subst (asm) rproc_process_fw_unfold) simp
      from b z have "\<not> left - 16 < sec_len s" by (auto dest: section_body_fits)
      with True have "unat (left - 16 - sec_len s) < unat left"
        by (rule process_fw_left_decreases)
      from less.hyps [OF this next_eq] have "Q r1 bootaddr1 log1 res" .
      with z show ?thesis using step [OF True s b] by simp
    qed
  qed
qed

subsection \<open>When the section loader is defined\<close>

text \<open>
  The loader reads inside the firmware buffer, and so returns, whenever \<open>left\<close> is no
  more than the bytes that the buffer holds from \<open>section\<close> on. That is the case in the
  callback when the text header that the image declares lies inside the image.
\<close>

lemma section_body_defined:
  assumes "16 < left" and "unat left \<le> length sect"
  shows "\<exists>res. section_body e r s sect left bootaddr log = Some res"
proof (cases "left - 16 < sec_len s")
  case True
  then show ?thesis by (simp add: section_body_def)
next
  case False
  then have "unat (sec_len s) \<le> unat (left - 16)" by (simp add: word_less_nat_alt)
  moreover have "unat (left - 16) = unat left - 16"
    using assms(1) by (simp add: unat_sub word_le_nat_alt word_less_nat_alt)
  ultimately have "sizeof_fw_section + unat (sec_len s) \<le> length sect"
    using assms by (simp add: sizeof_fw_section_def word_less_nat_alt)
  then have c: "read_content sect (sec_len s) =
      Some (take (unat (sec_len s)) (drop sizeof_fw_section sect))"
    by (simp add: read_content_def)
  show ?thesis
    unfolding section_body_def using False
    by (simp add: c split: sum.splits prod.splits)
qed

lemma rproc_process_fw_defined:
  "unat left \<le> length sect \<Longrightarrow> \<exists>res. rproc_process_fw e r sect left bootaddr log = Some res"
proof (induction "unat left" arbitrary: r sect left bootaddr log rule: less_induct)
  case less
  show ?case
  proof (cases "16 < left")
    case False
    then show ?thesis by (simp add: rproc_process_fw_stop)
  next
    case True
    then have "16 < unat left" by (simp add: word_less_nat_alt)
    with less.prems have "\<not> length sect < sizeof_fw_section"
      by (simp add: sizeof_fw_section_def)
    then obtain s where s: "read_fw_section sect = Some s"
      by (simp add: read_fw_section_def)
    from section_body_defined [OF True less.prems] obtain ret r1 bootaddr1 log1 where
      b: "section_body e r s sect left bootaddr log = Some (ret, r1, bootaddr1, log1)"
      by (metis prod_cases4)
    show ?thesis
    proof (cases "ret = 0")
      case False
      with True s b show ?thesis
        by (subst rproc_process_fw_unfold) simp
    next
      case z: True
      with b have fits: "\<not> left - 16 < sec_len s" by (auto dest: section_body_fits)
      with True have d: "unat (left - 16 - sec_len s) < unat left"
        by (rule process_fw_left_decreases)
      have a: "unat (left - 16) = unat left - 16"
        using True by (simp add: unat_sub word_le_nat_alt word_less_nat_alt)
      from fits have l: "unat (sec_len s) \<le> unat (left - 16)" by (simp add: word_less_nat_alt)
      then have "unat (left - 16 - sec_len s) = unat (left - 16) - unat (sec_len s)"
        by (simp add: unat_sub word_le_nat_alt)
      with a l less.prems
      have "unat (left - 16 - sec_len s) \<le>
              length (drop (sizeof_fw_section + unat (sec_len s)) sect)"
        by (simp add: sizeof_fw_section_def)
      from less.hyps [OF d this]
      obtain ret3 r3 bootaddr3 log3 where
        "rproc_process_fw e r1 (drop (sizeof_fw_section + unat (sec_len s)) sect)
          (left - 16 - sec_len s) bootaddr1 log1 = Some (ret3, r3, bootaddr3, log3)"
        by (metis prod_cases4)
      with True s b z show ?thesis
        by (subst rproc_process_fw_unfold) simp
    qed
  qed
qed

lemma rproc_load_fw_defined:
  assumes "length data < 2 ^ 32"
    and "sizeof_fw_header + unat (le_word (take 4 (drop 8 data)) :: u32) \<le> length data"
  shows "\<exists>res. rproc_load_fw e r (Some data) log = Some res"
proof (cases "length data < sizeof_fw_header \<or> take 4 data \<noteq> fw_magic")
  case True
  then show ?thesis by (auto simp add: rproc_load_fw_def)
next
  case False
  let ?hl = "le_word (take 4 (drop 8 data)) :: u32"
  let ?left = "(of_nat (length data) :: u32) - of_nat sizeof_fw_header - ?hl"
  have "(of_nat (length data) :: u32) =
          of_nat (length data - sizeof_fw_header - unat ?hl) + of_nat sizeof_fw_header + ?hl"
  proof -
    from assms(2)
    have "length data = (length data - sizeof_fw_header - unat ?hl) + sizeof_fw_header + unat ?hl"
      by arith
    then have "(of_nat (length data) :: u32) =
        of_nat ((length data - sizeof_fw_header - unat ?hl) + sizeof_fw_header + unat ?hl)"
      by simp
    then show ?thesis by (simp only: of_nat_add of_nat_unat) simp
  qed
  then have "?left = of_nat (length data - sizeof_fw_header - unat ?hl)" by simp
  moreover from assms(1) have "length data - sizeof_fw_header - unat ?hl < 2 ^ 32" by arith
  ultimately have "unat ?left = length data - sizeof_fw_header - unat ?hl"
    by (simp add: unat_of_nat take_bit_nat_eq_self)
  then have "unat ?left \<le> length (drop (sizeof_fw_header + unat ?hl) data)" by simp
  from rproc_process_fw_defined [OF this]
  obtain ret r1 bootaddr1 log1 where
    "rproc_process_fw e r (drop (sizeof_fw_header + unat ?hl) data) ?left 0 log =
       Some (ret, r1, bootaddr1, log1)"
    by (metis prod_cases4)
  with False show ?thesis
    by (auto simp add: rproc_load_fw_def Let_def split: prod.splits)
qed

subsection \<open>What the pipeline changes\<close>

lemma load_step_refl [simp]: "load_step r log r log"
  by (simp add: load_step_def trace_binds_def)

lemma load_step_trans:
  assumes "load_step r log r1 log1" and "load_step r1 log1 r2 log2"
  shows "load_step r log r2 log2"
proof -
  from assms(1) obtain evs1 where 1: "untraced r1 = untraced r" "log1 = log @ evs1"
    "trace_binds evs1 + bound_slots r = bound_slots r1"
    by (auto simp add: load_step_def)
  from assms(2) obtain evs2 where 2: "untraced r2 = untraced r1" "log2 = log1 @ evs2"
    "trace_binds evs2 + bound_slots r1 = bound_slots r2"
    by (auto simp add: load_step_def)
  have "log2 = log @ (evs1 @ evs2)" using 1 2 by simp
  moreover have "trace_binds (evs1 @ evs2) + bound_slots r = bound_slots r2"
    using 1 2 by (simp add: trace_binds_def)
  ultimately show ?thesis unfolding load_step_def using 1 2 by metis
qed

lemma load_step_events:
  "\<forall>ev \<in> set evs. \<not> is_bind ev \<Longrightarrow> load_step r log r (log @ evs)"
proof -
  assume a: "\<forall>ev \<in> set evs. \<not> is_bind ev"
  then have "filter is_bind evs = []" by (simp add: filter_empty_conv)
  then show ?thesis by (auto simp add: load_step_def trace_binds_def)
qed

lemma load_step_then_events:
  "load_step r log r1 log1 \<Longrightarrow> \<forall>ev \<in> set evs. \<not> is_bind ev \<Longrightarrow> load_step r log r1 (log1 @ evs)"
  by (rule load_step_trans [OF _ load_step_events])

lemma load_step_bind0:
  assumes "trace_buf0 r = 0" and "p \<noteq> 0"
  shows "load_step r log (r\<lparr>trace_len0 := l, trace_buf0 := p\<rparr>)
           (log @ [Ioremap pa l p, Debugfs_add_trace0])"
  using assms
  by (auto simp add: load_step_def untraced_def trace_binds_def is_bind_def bound_slots_def)

lemma load_step_bind1:
  assumes "trace_buf0 r \<noteq> 0" and "trace_buf1 r = 0" and "p \<noteq> 0"
  shows "load_step r log (r\<lparr>trace_len1 := l, trace_buf1 := p\<rparr>)
           (log @ [Ioremap pa l p, Debugfs_add_trace1])"
  using assms
  by (auto simp add: load_step_def untraced_def trace_binds_def is_bind_def bound_slots_def)

lemma rproc_handle_trace_rsc_step:
  assumes "rproc_handle_trace_rsc e r rsc log = (ret, r1, log1)"
  shows "load_step r log r1 log1"
proof (cases "rproc_da_to_pa (memory_maps r) (rsc_da rsc)")
  case (Inl err)
  with assms have "r1 = r" "log1 = log @ [Dev_err Invalid_device_address]"
    by (auto simp add: rproc_handle_trace_rsc_def)
  then show ?thesis by (simp add: load_step_events is_bind_def)
next
  case (Inr pa)
  let ?p = "ioremap_nocache e log pa (rsc_len rsc)"
  consider (busy) "trace_buf0 r \<noteq> 0 \<and> trace_buf1 r \<noteq> 0"
    | (nomem) "\<not> (trace_buf0 r \<noteq> 0 \<and> trace_buf1 r \<noteq> 0)" "?p = 0"
    | (first) "trace_buf0 r = 0" "?p \<noteq> 0"
    | (second) "trace_buf0 r \<noteq> 0" "trace_buf1 r = 0" "?p \<noteq> 0"
    by blast
  then show ?thesis
  proof cases
    case busy
    with assms Inr have "r1 = r" "log1 = log @ [Dev_warn Skipping_extra_trace_rsc]"
      by (auto simp add: rproc_handle_trace_rsc_def)
    then show ?thesis by (simp add: load_step_events is_bind_def)
  next
    case nomem
    with assms Inr have "r1 = r"
      "log1 = log @ [Ioremap pa (rsc_len rsc) ?p, Dev_err Cant_ioremap_trace_buffer]"
      by (auto simp add: rproc_handle_trace_rsc_def Let_def)
    then show ?thesis by (simp add: load_step_events is_bind_def)
  next
    case first
    with assms Inr have "r1 = r\<lparr>trace_len0 := rsc_len rsc, trace_buf0 := ?p\<rparr>"
      "log1 = log @ [Ioremap pa (rsc_len rsc) ?p, Debugfs_add_trace0]"
      by (auto simp add: rproc_handle_trace_rsc_def Let_def)
    with first show ?thesis by (simp add: load_step_bind0)
  next
    case second
    with assms Inr have "r1 = r\<lparr>trace_len1 := rsc_len rsc, trace_buf1 := ?p\<rparr>"
      "log1 = log @ [Ioremap pa (rsc_len rsc) ?p, Debugfs_add_trace1]"
      by (auto simp add: rproc_handle_trace_rsc_def Let_def)
    with second show ?thesis by (simp add: load_step_bind1)
  qed
qed

lemma handle_resources_loop_step:
  "handle_resources_loop e r rscs bootaddr log = (ret, r1, bootaddr1, log1) \<Longrightarrow>
     load_step r log r1 log1"
proof (induction rscs arbitrary: r bootaddr log)
  case Nil
  then show ?case by simp
next
  case (Cons rsc rest)
  consider (trace) "rsc_type rsc = RSC_TRACE"
    | (boot) "rsc_type rsc \<noteq> RSC_TRACE" "rsc_type rsc = RSC_BOOTADDR"
    | (other) "rsc_type rsc \<noteq> RSC_TRACE" "rsc_type rsc \<noteq> RSC_BOOTADDR"
    by blast
  then show ?case
  proof cases
    case trace
    obtain ret2 r2 log2 where t: "rproc_handle_trace_rsc e r rsc log = (ret2, r2, log2)"
      by (cases "rproc_handle_trace_rsc e r rsc log") auto
    then have s: "load_step r log r2 log2" by (rule rproc_handle_trace_rsc_step)
    show ?thesis
    proof (cases "ret2 = 0")
      case True
      with Cons.prems trace t have "handle_resources_loop e r2 rest bootaddr log2 = (ret, r1, bootaddr1, log1)"
        by simp
      from load_step_trans [OF s Cons.IH [OF this]] show ?thesis .
    next
      case False
      with Cons.prems trace t have "r1 = r2" "log1 = log2 @ [Dev_err Failed_handling_rsc]"
        by simp_all
      with s show ?thesis by (simp add: load_step_then_events is_bind_def)
    qed
  next
    case boot
    let ?log = "if bootaddr \<noteq> 0 then log @ [Dev_warn Bootaddr_already_set] else log"
    have s: "load_step r log r ?log"
      by (simp add: load_step_events is_bind_def)
    from Cons.prems boot have "handle_resources_loop e r rest (rsc_da rsc) ?log = (ret, r1, bootaddr1, log1)"
      by simp
    from load_step_trans [OF s Cons.IH [OF this]] show ?thesis .
  next
    case other
    with Cons.prems have "handle_resources_loop e r rest bootaddr log = (ret, r1, bootaddr1, log1)"
      by simp
    from Cons.IH [OF this] show ?thesis .
  qed
qed

lemma rproc_handle_resources_step:
  assumes "rproc_handle_resources e r rscs bootaddr log = (ret, r1, bootaddr1, log1)"
  shows "load_step r log r1 log1"
proof -
  obtain ret2 r2 b2 log2 where l: "handle_resources_loop e r rscs bootaddr log = (ret2, r2, b2, log2)"
    by (cases "handle_resources_loop e r rscs bootaddr log") auto
  from l have s: "load_step r log r2 log2" by (rule handle_resources_loop_step)
  from assms l have "r1 = r2" and
    "log1 = log2 @ ((if ret2 \<noteq> 0 \<and> trace_buf0 r2 \<noteq> 0 then [Iounmap (trace_buf0 r2)] else [])
                   @ (if ret2 \<noteq> 0 \<and> trace_buf1 r2 \<noteq> 0 then [Iounmap (trace_buf1 r2)] else []))"
    by (auto simp add: rproc_handle_resources_def)
  with s show ?thesis by (simp add: load_step_then_events is_bind_def)
qed

lemma section_body_step:
  assumes "section_body e r s sect left bootaddr log = Some (ret, r1, bootaddr1, log1)"
  shows "load_step r log r1 log1"
proof (cases "left - 16 < sec_len s")
  case True
  with assms show ?thesis
    by (auto simp add: section_body_def load_step_events is_bind_def)
next
  case fits: False
  show ?thesis
  proof (cases "rproc_da_to_pa (memory_maps r) (sec_da s)")
    case (Inl err)
    with assms fits show ?thesis
      by (auto simp add: section_body_def load_step_events is_bind_def)
  next
    case (Inr pa)
    let ?p = "ioremap_nocache e log pa (sec_len s)"
    show ?thesis
    proof (cases "?p = 0")
      case True
      with assms fits Inr show ?thesis
        by (auto simp add: section_body_def load_step_events is_bind_def)
    next
      case mapped: False
      with assms fits Inr obtain content where c: "read_content sect (sec_len s) = Some content"
        by (auto simp add: section_body_def split: option.splits)
      let ?log = "log @ [Ioremap pa (sec_len s) ?p, Memcpy ?p content]"
      have s0: "load_step r log r ?log" by (simp add: load_step_events is_bind_def)
      show ?thesis
      proof (cases "sec_type s = FW_RESOURCE")
        case True
        obtain ret2 r2 b2 log2 where
          h: "rproc_handle_resources e r (fw_resources content) bootaddr ?log = (ret2, r2, b2, log2)"
          by (cases "rproc_handle_resources e r (fw_resources content) bootaddr ?log") auto
        from load_step_trans [OF s0 rproc_handle_resources_step [OF h]]
        have "load_step r log r2 log2" .
        moreover from assms fits Inr mapped c True h
        have "r1 = r2" "log1 = log2 @ [Iounmap ?p]"
          by (simp_all add: section_body_def)
        ultimately show ?thesis by (simp add: load_step_then_events is_bind_def)
      next
        case False
        with assms fits Inr mapped c have "r1 = r" "log1 = ?log @ [Iounmap ?p]"
          by (simp_all add: section_body_def)
        then show ?thesis by (simp add: load_step_events is_bind_def)
      qed
    qed
  qed
qed

lemma rproc_process_fw_step:
  assumes "rproc_process_fw e r sect left bootaddr log = Some (ret, r1, bootaddr1, log1)"
  shows "load_step r log r1 log1"
proof -
  have "load_step r log (fst (snd (ret, r1, bootaddr1, log1)))
          (snd (snd (snd (ret, r1, bootaddr1, log1))))"
    using assms
  proof (induction rule: rproc_process_fw_induct)
    case (stop r bootaddr log)
    then show ?case by simp
  next
    case (step r sect left bootaddr log s ret r1 bootaddr1 log1 res)
    from step(3) have b: "load_step r log r1 log1" by (rule section_body_step)
    show ?case
    proof (cases "ret = 0")
      case True
      with step(5) b show ?thesis by (auto intro: load_step_trans)
    next
      case False
      with step(4) b show ?thesis by simp
    qed
  qed
  then show ?thesis by simp
qed

lemma load_step_fields:
  assumes "load_step r log r1 log1"
  shows "count r1 = count r" and "state r1 = state r"
    and "firmware_loading_complete r1 = firmware_loading_complete r"
    and "memory_maps r1 = memory_maps r" and "name r1 = name r" and "firmware r1 = firmware r"
proof -
  from assms have u: "untraced r1 = untraced r" by (simp add: load_step_def)
  have "count (untraced r1) = count r1" "count (untraced r) = count r"
    "state (untraced r1) = state r1" "state (untraced r) = state r"
    "firmware_loading_complete (untraced r1) = firmware_loading_complete r1"
    "firmware_loading_complete (untraced r) = firmware_loading_complete r"
    "memory_maps (untraced r1) = memory_maps r1" "memory_maps (untraced r) = memory_maps r"
    "name (untraced r1) = name r1" "name (untraced r) = name r"
    "firmware (untraced r1) = firmware r1" "firmware (untraced r) = firmware r"
    by (simp_all add: untraced_def)
  with u show "count r1 = count r" and "state r1 = state r"
    and "firmware_loading_complete r1 = firmware_loading_complete r"
    and "memory_maps r1 = memory_maps r" and "name r1 = name r" and "firmware r1 = firmware r"
    by simp_all
qed



subsection \<open>The firmware callback\<close>

lemma rproc_start_fields:
  assumes "rproc_start e r bootaddr log = (r1, log1)"
  shows "count r1 = count r" and "state r1 = state r \<or> state r1 = RPROC_RUNNING"
    and "state r1 = RPROC_RUNNING \<and> state r \<noteq> RPROC_RUNNING \<longrightarrow>
           mutex_lock_interruptible e = 0 \<and> ops_start e bootaddr = 0"
  using assms by (auto simp add: rproc_start_def split: if_splits)

lemma rproc_load_fw_fields:
  assumes "rproc_load_fw e r fw log = Some (r1, log1)"
  shows "firmware_loading_complete r1" and "count r1 = count r"
    and "state r1 = state r \<or> state r1 = RPROC_RUNNING"
proof -
  have "firmware_loading_complete r1 \<and> count r1 = count r \<and>
        (state r1 = state r \<or> state r1 = RPROC_RUNNING)"
  proof (cases fw)
    case None
    with assms show ?thesis by (auto simp add: rproc_load_fw_def)
  next
    case (Some data)
    show ?thesis
    proof (cases "length data < sizeof_fw_header \<or> take 4 data \<noteq> fw_magic")
      case True
      with assms Some show ?thesis by (auto simp add: rproc_load_fw_def split: if_splits)
    next
      case False
      let ?hl = "le_word (take 4 (drop 8 data)) :: u32"
      let ?p = "rproc_process_fw e r (drop (sizeof_fw_header + unat ?hl) data)
                  (of_nat (length data) - of_nat sizeof_fw_header - ?hl) 0 log"
      from assms Some False obtain ret r2 b2 log2 where p: "?p = Some (ret, r2, b2, log2)"
        by (auto simp add: rproc_load_fw_def Let_def split: option.splits)
      from load_step_fields [OF rproc_process_fw_step [OF p]]
      have f: "count r2 = count r" "state r2 = state r" by simp_all
      show ?thesis
      proof (cases "ret = 0")
        case True
        obtain r3 log3 where s: "rproc_start e r2 b2 log2 = (r3, log3)"
          by (cases "rproc_start e r2 b2 log2") auto
        with assms Some False p True have "r1 = r3\<lparr>firmware_loading_complete := True\<rparr>"
          by (auto simp add: rproc_load_fw_def Let_def)
        with rproc_start_fields(1,2) [OF s] f show ?thesis by auto
      next
        case nz: False
        with assms Some False p have "r1 = r2\<lparr>firmware_loading_complete := True\<rparr>"
          by (auto simp add: rproc_load_fw_def Let_def)
        with f show ?thesis by simp
      qed
    qed
  qed
  then show "firmware_loading_complete r1" and "count r1 = count r"
    and "state r1 = state r \<or> state r1 = RPROC_RUNNING" by simp_all
qed

lemma rproc_put_last_not_running:
  assumes "count r = 1" and "firmware_loading_complete r" and "state r \<noteq> RPROC_RUNNING"
    and "mutex_lock_interruptible e = 0"
  shows "rproc_put e r log =
           Some (r\<lparr>count := 0, trace_buf1 := 0, trace_buf0 := 0, state := RPROC_OFFLINE\<rparr>,
                 log @ [Mutex_lock]
                     @ (if trace_buf0 r \<noteq> 0 then [Iounmap (trace_buf0 r)] else [])
                     @ (if trace_buf1 r \<noteq> 0 then [Iounmap (trace_buf1 r)] else [])
                     @ [Mutex_unlock, Module_put])"
  using assms by (simp add: rproc_put_def Let_def)

text \<open>
  The processor is RUNNING after the callback only when an image arrived, its header
  and all its sections were accepted, the lock was taken and the platform's \<open>start\<close>
  succeeded: every failure of the load leaves it not RUNNING.
\<close>

lemma rproc_load_fw_came_up:
  assumes "rproc_load_fw e r fw log = Some (r1, log1)"
    and "state r \<noteq> RPROC_RUNNING" and "state r1 = RPROC_RUNNING"
  shows "\<exists>data r2 bootaddr log2.
           fw = Some data \<and> \<not> length data < sizeof_fw_header \<and> take 4 data = fw_magic \<and>
           rproc_process_fw e r
             (drop (sizeof_fw_header + unat (le_word (take 4 (drop 8 data)) :: u32)) data)
             (of_nat (length data) - of_nat sizeof_fw_header - le_word (take 4 (drop 8 data)))
             0 log = Some (0, r2, bootaddr, log2) \<and>
           mutex_lock_interruptible e = 0 \<and> ops_start e bootaddr = 0"
proof (cases fw)
  case None
  with assms show ?thesis by (auto simp add: rproc_load_fw_def)
next
  case (Some data)
  show ?thesis
  proof (cases "length data < sizeof_fw_header \<or> take 4 data \<noteq> fw_magic")
    case True
    with assms Some show ?thesis by (auto simp add: rproc_load_fw_def split: if_splits)
  next
    case False
    let ?hl = "le_word (take 4 (drop 8 data)) :: u32"
    let ?p = "rproc_process_fw e r (drop (sizeof_fw_header + unat ?hl) data)
                (of_nat (length data) - of_nat sizeof_fw_header - ?hl) 0 log"
    from assms(1) Some False obtain ret r2 b2 log2 where p: "?p = Some (ret, r2, b2, log2)"
      by (auto simp add: rproc_load_fw_def Let_def split: option.splits)
    from load_step_fields [OF rproc_process_fw_step [OF p]]
    have f: "state r2 = state r" by simp
    show ?thesis
    proof (cases "ret = 0")
      case True
      obtain r3 log3 where s: "rproc_start e r2 b2 log2 = (r3, log3)"
        by (cases "rproc_start e r2 b2 log2") auto
      with assms(1) Some False p True have "r1 = r3\<lparr>firmware_loading_complete := True\<rparr>"
        by (auto simp add: rproc_load_fw_def Let_def)
      with assms(2,3) f have "state r3 = RPROC_RUNNING \<and> state r2 \<noteq> RPROC_RUNNING" by simp
      with rproc_start_fields(3) [OF s]
      have "mutex_lock_interruptible e = 0 \<and> ops_start e b2 = 0" by simp
      with Some False p True show ?thesis by auto
    next
      case nz: False
      with assms(1) Some False p have "r1 = r2\<lparr>firmware_loading_complete := True\<rparr>"
        by (auto simp add: rproc_load_fw_def Let_def)
      with assms(2,3) f show ?thesis by simp
    qed
  qed
qed

text \<open>
  C1, as the code has it. The callback never writes the refcount, and the only write to
  the state is \<open>RPROC_RUNNING\<close> after a successful start. So when a load fails (the
  processor, LOADING since \<open>rproc_get\<close>, is not RUNNING afterwards), the completion is
  signalled with the refcount as it was and the state still LOADING. The holder of the
  handle still owns its reference: it is its \<open>rproc_put\<close>, the last one, that brings the
  refcount to 0, clears both trace slots and sets the state to OFFLINE.
\<close>

theorem rproc_load_fw_failure:
  assumes "rproc_load_fw e r fw log = Some (r1, log1)"
    and "state r = RPROC_LOADING" and "state r1 \<noteq> RPROC_RUNNING"
  shows "firmware_loading_complete r1 \<and> count r1 = count r \<and> state r1 = RPROC_LOADING \<and>
         (count r = 1 \<and> mutex_lock_interruptible e2 = 0 \<longrightarrow>
            (\<exists>evs. rproc_put e2 r1 log1 =
               Some (r1\<lparr>count := 0, trace_buf1 := 0, trace_buf0 := 0, state := RPROC_OFFLINE\<rparr>,
                     log1 @ evs)))"
proof -
  from rproc_load_fw_fields [OF assms(1)] assms(2,3)
  have f: "firmware_loading_complete r1" "count r1 = count r" "state r1 = RPROC_LOADING"
    by auto
  have "count r = 1 \<and> mutex_lock_interruptible e2 = 0 \<longrightarrow>
            (\<exists>evs. rproc_put e2 r1 log1 =
               Some (r1\<lparr>count := 0, trace_buf1 := 0, trace_buf0 := 0, state := RPROC_OFFLINE\<rparr>,
                     log1 @ evs))"
  proof
    assume a: "count r = 1 \<and> mutex_lock_interruptible e2 = 0"
    with f assms(3) have "count r1 = 1" "mutex_lock_interruptible e2 = 0" by simp_all
    from rproc_put_last_not_running [OF this(1) f(1) assms(3) this(2)]
    show "\<exists>evs. rproc_put e2 r1 log1 =
               Some (r1\<lparr>count := 0, trace_buf1 := 0, trace_buf0 := 0, state := RPROC_OFFLINE\<rparr>,
                     log1 @ evs)"
      by blast
  qed
  with f show ?thesis by simp
qed

lemma load_bad_magic:
  "rproc_load_fw example_env loading_rproc (Some bad_magic_image) [] =
     Some (loading_rproc\<lparr>firmware_loading_complete := True\<rparr>,
           [Dev_err Image_is_corrupted_bad_magic, Release_firmware])"
  by (simp add: rproc_load_fw_def bad_magic_image_def fw_magic_def sizeof_fw_header_def)

theorem rproc_load_fw_failure_witness:
  "rproc_load_fw example_env loading_rproc (Some bad_magic_image) [] =
     Some (loading_rproc\<lparr>firmware_loading_complete := True\<rparr>,
           [Dev_err Image_is_corrupted_bad_magic, Release_firmware])
   \<and> count (loading_rproc\<lparr>firmware_loading_complete := True\<rparr>) = 1
   \<and> state (loading_rproc\<lparr>firmware_loading_complete := True\<rparr>) = RPROC_LOADING
   \<and> (\<exists>evs. rproc_put example_env (loading_rproc\<lparr>firmware_loading_complete := True\<rparr>)
               [Dev_err Image_is_corrupted_bad_magic, Release_firmware] =
             Some (example_rproc\<lparr>firmware_loading_complete := True\<rparr>,
                   [Dev_err Image_is_corrupted_bad_magic, Release_firmware] @ evs))"
proof -
  have l: "state loading_rproc = RPROC_LOADING"
    by (simp add: loading_rproc_def)
  have n: "state (loading_rproc\<lparr>firmware_loading_complete := True\<rparr>) \<noteq> RPROC_RUNNING"
    by (simp add: loading_rproc_def)
  have c: "count loading_rproc = 1 \<and> mutex_lock_interruptible example_env = 0"
    by (simp add: loading_rproc_def example_env_def)
  have e: "loading_rproc\<lparr>firmware_loading_complete := True, count := 0, trace_buf1 := 0,
             trace_buf0 := 0, state := RPROC_OFFLINE\<rparr> =
           example_rproc\<lparr>firmware_loading_complete := True\<rparr>"
    by (simp add: loading_rproc_def example_rproc_def)
  from rproc_load_fw_failure [OF load_bad_magic l n, of example_env] c e load_bad_magic
  show ?thesis by simp
qed

text \<open>
  C1 as claimed fails on an image with a bad magic, loaded for the first user of \<open>p0\<close>:
  when the completion is signalled the refcount is still 1 and the state still LOADING.
\<close>

theorem rproc_load_fw_failure_counterexample:
  "rproc_get_found example_env example_rproc [] =
     (True, loading_rproc,
      [Mutex_lock, Try_module_get, Request_firmware ''p0.bin'' 0, Mutex_unlock])
   \<and> rproc_load_fw example_env loading_rproc (Some bad_magic_image) [] =
     Some (loading_rproc\<lparr>firmware_loading_complete := True\<rparr>,
           [Dev_err Image_is_corrupted_bad_magic, Release_firmware])
   \<and> count (loading_rproc\<lparr>firmware_loading_complete := True\<rparr>) \<noteq> 0
   \<and> state (loading_rproc\<lparr>firmware_loading_complete := True\<rparr>) \<noteq> RPROC_OFFLINE"
  by (simp add: rproc_get_found_def rproc_load_fw_def bad_magic_image_def fw_magic_def
        sizeof_fw_header_def loading_rproc_def example_rproc_def example_env_def)

subsection \<open>The section loop and the bytes that remain\<close>

lemma left_of_bare_header:
  fixes hl :: u32
  assumes "length data = sizeof_fw_header + unat hl + sizeof_fw_section"
  shows "(of_nat (length data) :: u32) - of_nat sizeof_fw_header - hl = 16"
proof -
  have "(of_nat (length data) :: u32) = of_nat sizeof_fw_header + hl + 16"
    unfolding assms by (simp add: sizeof_fw_section_def)
  then show ?thesis by simp
qed

lemma rproc_load_fw_bare_header:
  assumes h1: "sizeof_fw_header \<le> length data" and h2: "take 4 data = fw_magic"
    and h3: "length data = sizeof_fw_header + unat (le_word (take 4 (drop 8 data)) :: u32)
                      + sizeof_fw_section"
  shows "rproc_load_fw e r (Some data) log =
        (case rproc_start e r 0 log of
           (r2, log2) \<Rightarrow> Some (r2\<lparr>firmware_loading_complete := True\<rparr>, log2 @ [Release_firmware]))"
proof -
  from h1 have n: "\<not> length data < sizeof_fw_header" by simp
  have p: "rproc_process_fw e r
             (drop (sizeof_fw_header + unat (le_word (take 4 (drop 8 data)) :: u32)) data)
             ((of_nat (length data) :: u32) - of_nat sizeof_fw_header
                - le_word (take 4 (drop 8 data))) 0 log
           = Some (0, r, 0, log)"
    by (simp only: left_of_bare_header [OF h3] rproc_process_fw_16)
  show ?thesis
    unfolding rproc_load_fw_def Let_def
    using n h2 by (simp add: p split: prod.splits)
qed

lemma read_fw_section_append:
  "sizeof_fw_section \<le> length sb \<Longrightarrow> read_fw_section (sb @ rest) = read_fw_section sb"
  by (simp add: read_fw_section_def sizeof_fw_section_def)

lemma read_content_append:
  "length sb = sizeof_fw_section + unat len \<Longrightarrow> read_content (sb @ rest) len = read_content sb len"
  by (simp add: read_content_def sizeof_fw_section_def)

lemma whole_left:
  fixes len :: u32
  assumes "length sb = sizeof_fw_section + unat len"
  shows "(of_nat (length sb) :: u32) - 16 = len"
  unfolding assms by (simp add: sizeof_fw_section_def)

lemma section_body_whole:
  assumes "length sb = sizeof_fw_section + unat (sec_len s)" and "\<not> left - 16 < sec_len s"
  shows "section_body e r s (sb @ rest) left bootaddr log =
         section_body e r s sb (of_nat (length sb)) bootaddr log"
  unfolding section_body_def whole_left [OF assms(1)] read_content_append [OF assms(1)]
  using assms(2) by simp

lemma rproc_process_fw_sections:
  assumes "\<forall>sb \<in> set secs. is_whole sb" and "unat left = length (concat secs) + 16"
  shows "rproc_process_fw e r (concat secs @ rest) left bootaddr log =
         sections_run e secs r bootaddr log"
  using assms
proof (induction secs arbitrary: left r bootaddr log)
  case Nil
  then have "left = 16" by (simp add: word_unat_eq_iff)
  then show ?case by (simp add: rproc_process_fw_16)
next
  case (Cons sb secs)
  from Cons.prems(1) obtain s where s: "read_fw_section sb = Some s"
    and len: "length sb = sizeof_fw_section + unat (sec_len s)"
    by (auto simp add: is_whole_def split: option.splits)
  from Cons.prems(2) len have u: "unat left = 32 + unat (sec_len s) + length (concat secs)"
    by (simp add: sizeof_fw_section_def)
  then have gt: "16 < left" by (simp add: word_less_nat_alt)
  then have a: "unat (left - 16) = unat left - 16"
    by (simp add: unat_sub word_le_nat_alt word_less_nat_alt)
  with u have fits: "\<not> left - 16 < sec_len s" by (simp add: word_less_nat_alt)
  then have "unat (left - 16 - sec_len s) = unat (left - 16) - unat (sec_len s)"
    by (simp add: unat_sub word_le_nat_alt word_less_nat_alt)
  with a u have next_left: "unat (left - 16 - sec_len s) = length (concat secs) + 16" by simp
  from len have rd: "read_fw_section (sb @ concat secs @ rest) = Some s"
    by (simp add: read_fw_section_append s)
  have body: "section_body e r s (sb @ concat secs @ rest) left bootaddr log =
              section_body e r s sb (of_nat (length sb)) bootaddr log"
    using len fits by (rule section_body_whole)
  from len have dr: "drop (sizeof_fw_section + unat (sec_len s)) (sb @ concat secs @ rest) =
                       concat secs @ rest"
    by simp
  from Cons.prems(1) have rest_whole: "\<forall>sb \<in> set secs. is_whole sb" by simp
  have ih: "\<And>r1 bootaddr1 log1.
      rproc_process_fw e r1 (concat secs @ rest) (left - 16 - sec_len s) bootaddr1 log1 =
      sections_run e secs r1 bootaddr1 log1"
    using Cons.IH [OF rest_whole next_left] .
  have "rproc_process_fw e r (sb @ concat secs @ rest) left bootaddr log =
        (case section_body e r s sb (of_nat (length sb)) bootaddr log of
           None \<Rightarrow> None
         | Some (ret, r1, bootaddr1, log1) \<Rightarrow>
             if ret \<noteq> 0 then Some (ret, r1, bootaddr1, log1)
             else rproc_process_fw e r1 (concat secs @ rest) (left - 16 - sec_len s)
                    bootaddr1 log1)"
    by (subst rproc_process_fw_unfold) (simp only: gt rd body dr if_True option.case)
  then have "rproc_process_fw e r (sb @ concat secs @ rest) left bootaddr log =
        sections_run e (sb # secs) r bootaddr log"
    by (simp add: ih s split: option.splits prod.splits)
  then show ?case by simp
qed

lemma unat_of_nat_u32: "n < 2 ^ 32 \<Longrightarrow> unat (of_nat n :: u32) = n"
  by (simp add: unat_of_nat take_bit_nat_eq_self)

lemma area_left:
  assumes "length final = sizeof_fw_section" and "length (concat secs @ final) < 2 ^ 32"
  shows "unat (of_nat (length (concat secs @ final)) :: u32) = length (concat secs) + 16"
proof -
  from assms(2) have "unat (of_nat (length (concat secs @ final)) :: u32) =
      length (concat secs @ final)"
    by (rule unat_of_nat_u32)
  with assms(1) show ?thesis by (simp add: sizeof_fw_section_def)
qed

lemma area_of_image:
  fixes hl :: u32
  assumes "drop (sizeof_fw_header + unat hl) data = area" and "area \<noteq> []"
  shows "(of_nat (length data) :: u32) - of_nat sizeof_fw_header - hl = of_nat (length area)"
proof -
  from assms have "sizeof_fw_header + unat hl \<le> length data" by (cases "sizeof_fw_header + unat hl \<le> length data") auto
  with assms(1) have "length data = length area + sizeof_fw_header + unat hl" by auto
  then have "(of_nat (length data) :: u32) = of_nat (length area + sizeof_fw_header + unat hl)"
    by simp
  then have "(of_nat (length data) :: u32) = of_nat (length area) + of_nat sizeof_fw_header + hl"
    by (simp only: of_nat_add of_nat_unat) simp
  then show ?thesis by simp
qed

lemma rproc_load_fw_sections:
  assumes h1: "sizeof_fw_header \<le> length data" and h2: "take 4 data = fw_magic"
    and h3: "drop (sizeof_fw_header + unat (le_word (take 4 (drop 8 data)) :: u32)) data =
               concat secs @ final"
    and w: "\<forall>sb \<in> set secs. is_whole sb"
    and f: "length final = sizeof_fw_section" and l: "length (concat secs @ final) < 2 ^ 32"
  shows "rproc_load_fw e r (Some data) log =
        (case sections_run e secs r 0 log of
           None \<Rightarrow> None
         | Some (ret, r1, bootaddr, log1) \<Rightarrow>
             if ret \<noteq> 0
             then Some (r1\<lparr>firmware_loading_complete := True\<rparr>,
                        log1 @ [Dev_err Failed_to_process_the_image, Release_firmware])
             else (case rproc_start e r1 bootaddr log1 of
                     (r2, log2) \<Rightarrow>
                       Some (r2\<lparr>firmware_loading_complete := True\<rparr>, log2 @ [Release_firmware])))"
proof -
  from h1 have n: "\<not> length data < sizeof_fw_header" by simp
  from f have ne: "concat secs @ final \<noteq> []" by (auto simp add: sizeof_fw_section_def)
  have p: "rproc_process_fw e r
             (drop (sizeof_fw_header + unat (le_word (take 4 (drop 8 data)) :: u32)) data)
             ((of_nat (length data) :: u32) - of_nat sizeof_fw_header
                - le_word (take 4 (drop 8 data))) 0 log
           = sections_run e secs r 0 log"
    unfolding area_of_image [OF h3 ne] h3
    by (rule rproc_process_fw_sections [OF w area_left [OF f l]])
  show ?thesis
    unfolding rproc_load_fw_def Let_def
    using n h2 by (simp add: p)
qed

text \<open>
  C9. Take any section area that ends with a bare section header: whole sections, and
  after them exactly \<open>sizeof(struct fw_section)\<close> bytes, whatever they hold. The loop
  of \<open>rproc_process_fw\<close> returns, and what it returns is what processing the sections
  before that header leaves: every whole section takes its header and its content off
  \<open>left\<close>, so the loop arrives at the last header with \<open>left = sizeof(struct
  fw_section)\<close> and ends there with success, the last header being neither read nor
  processed; the result is 0 unless one of the sections before has failed and ended
  the loop at that section. The loop reached with that many bytes left does nothing at
  all. An image with such a section area is loaded as its sections before the last
  header are, and then started.
\<close>

theorem rproc_process_fw_bare_header:
  assumes "\<forall>sb \<in> set secs. is_whole sb"
    and "length final = sizeof_fw_section"
    and "length (concat secs @ final) < 2 ^ 32"
  shows "rproc_process_fw e r (concat secs @ final) (of_nat (length (concat secs @ final)))
           bootaddr log = sections_run e secs r bootaddr log
   \<and> (\<exists>res. sections_run e secs r bootaddr log = Some res)
   \<and> rproc_process_fw e r final (of_nat sizeof_fw_section) bootaddr log = Some (0, r, bootaddr, log)
   \<and> (sizeof_fw_header \<le> length data \<and> take 4 data = fw_magic \<and>
      drop (sizeof_fw_header + unat (le_word (take 4 (drop 8 data)) :: u32)) data =
        concat secs @ final \<longrightarrow>
      rproc_load_fw e r (Some data) log =
        (case sections_run e secs r 0 log of
           None \<Rightarrow> None
         | Some (ret, r1, bootaddr, log1) \<Rightarrow>
             if ret \<noteq> 0
             then Some (r1\<lparr>firmware_loading_complete := True\<rparr>,
                        log1 @ [Dev_err Failed_to_process_the_image, Release_firmware])
             else (case rproc_start e r1 bootaddr log1 of
                     (r2, log2) \<Rightarrow>
                       Some (r2\<lparr>firmware_loading_complete := True\<rparr>, log2 @ [Release_firmware]))))"
proof (intro conjI impI)
  have run: "rproc_process_fw e r (concat secs @ final) (of_nat (length (concat secs @ final)))
           bootaddr log = sections_run e secs r bootaddr log"
    using rproc_process_fw_sections [OF assms(1) area_left [OF assms(2) assms(3)]] by simp
  then show "rproc_process_fw e r (concat secs @ final) (of_nat (length (concat secs @ final)))
           bootaddr log = sections_run e secs r bootaddr log" .
  from assms(3) have "unat (of_nat (length (concat secs @ final)) :: u32) \<le>
      length (concat secs @ final)"
    by (simp only: unat_of_nat_u32)
  from rproc_process_fw_defined [OF this] run
  show "\<exists>res. sections_run e secs r bootaddr log = Some res" by metis
  show "rproc_process_fw e r final (of_nat sizeof_fw_section) bootaddr log = Some (0, r, bootaddr, log)"
    by (simp add: sizeof_fw_section_def rproc_process_fw_16)
  assume "sizeof_fw_header \<le> length data \<and> take 4 data = fw_magic \<and>
      drop (sizeof_fw_header + unat (le_word (take 4 (drop 8 data)) :: u32)) data =
        concat secs @ final"
  then have h: "sizeof_fw_header \<le> length data" "take 4 data = fw_magic"
      "drop (sizeof_fw_header + unat (le_word (take 4 (drop 8 data)) :: u32)) data =
        concat secs @ final"
    by simp_all
  show "rproc_load_fw e r (Some data) log =
        (case sections_run e secs r 0 log of
           None \<Rightarrow> None
         | Some (ret, r1, bootaddr, log1) \<Rightarrow>
             if ret \<noteq> 0
             then Some (r1\<lparr>firmware_loading_complete := True\<rparr>,
                        log1 @ [Dev_err Failed_to_process_the_image, Release_firmware])
             else (case rproc_start e r1 bootaddr log1 of
                     (r2, log2) \<Rightarrow>
                       Some (r2\<lparr>firmware_loading_complete := True\<rparr>, log2 @ [Release_firmware])))"
    by (rule rproc_load_fw_sections [OF h assms])
qed

lemma start_loading_rproc:
  "rproc_start example_env loading_rproc 0 [] =
     (loading_rproc\<lparr>state := RPROC_RUNNING\<rparr>, [Mutex_lock, Ops_start 0 0, Mutex_unlock])"
  by (simp add: rproc_start_def example_env_def)

lemma whole_section_is_whole: "is_whole whole_section"
  by code_simp

lemma whole_section_run:
  "sections_run example_env [whole_section] loading_rproc 0 [] =
     Some (0, loading_rproc, 0,
           [Ioremap 0x1000 4 0xC0001000, Memcpy 0xC0001000 [0xDE, 0xAD, 0xBE, 0xEF],
            Iounmap 0xC0001000])"
  by code_simp

lemma tail_image_shape:
  "sizeof_fw_header \<le> length tail_image \<and> take 4 tail_image = fw_magic \<and>
   drop (sizeof_fw_header + unat (le_word (take 4 (drop 8 tail_image)) :: u32)) tail_image =
     concat [whole_section] @ tail_header"
  by code_simp

lemma header_only_image_area:
  "sizeof_fw_header \<le> length header_only_image \<and> take 4 header_only_image = fw_magic \<and>
   drop (sizeof_fw_header + unat (le_word (take 4 (drop 8 header_only_image)) :: u32))
     header_only_image = concat [] @ [2, 0, 0, 0, 0, 0x10, 0, 0, 0, 0, 0, 0, 0, 0, 0, 0]"
  by code_simp

theorem rproc_process_fw_bare_header_witness:
  "is_whole whole_section \<and> length tail_header = sizeof_fw_section
   \<and> length (concat [whole_section] @ tail_header) < 2 ^ 32
   \<and> rproc_process_fw example_env loading_rproc (whole_section @ tail_header) 36 0 [] =
       Some (0, loading_rproc, 0,
             [Ioremap 0x1000 4 0xC0001000, Memcpy 0xC0001000 [0xDE, 0xAD, 0xBE, 0xEF],
              Iounmap 0xC0001000])
   \<and> rproc_load_fw example_env loading_rproc (Some tail_image) [] =
       Some (loading_rproc\<lparr>state := RPROC_RUNNING, firmware_loading_complete := True\<rparr>,
             [Ioremap 0x1000 4 0xC0001000, Memcpy 0xC0001000 [0xDE, 0xAD, 0xBE, 0xEF],
              Iounmap 0xC0001000, Mutex_lock, Ops_start 0 0, Mutex_unlock, Release_firmware])
   \<and> rproc_load_fw example_env loading_rproc (Some header_only_image) [] =
       Some (loading_rproc\<lparr>state := RPROC_RUNNING, firmware_loading_complete := True\<rparr>,
             [Mutex_lock, Ops_start 0 0, Mutex_unlock, Release_firmware])"
proof -
  have w: "\<forall>sb \<in> set [whole_section]. is_whole sb" by (simp add: whole_section_is_whole)
  have f: "length tail_header = sizeof_fw_section"
    by (simp add: tail_header_def sizeof_fw_section_def)
  have l: "length (concat [whole_section] @ tail_header) < 2 ^ 32"
    by (simp add: whole_section_def four_byte_section_def tail_header_def)
  have n: "(of_nat (length (concat [whole_section] @ tail_header)) :: u32) = 36"
    by (simp add: whole_section_def four_byte_section_def tail_header_def)
  have st: "rproc_start example_env loading_rproc 0
      [Ioremap 0x1000 4 0xC0001000, Memcpy 0xC0001000 [0xDE, 0xAD, 0xBE, 0xEF],
       Iounmap 0xC0001000] =
     (loading_rproc\<lparr>state := RPROC_RUNNING\<rparr>,
      [Ioremap 0x1000 4 0xC0001000, Memcpy 0xC0001000 [0xDE, 0xAD, 0xBE, 0xEF],
       Iounmap 0xC0001000, Mutex_lock, Ops_start 0 0, Mutex_unlock])"
    by (simp add: rproc_start_def example_env_def)
  note inst = rproc_process_fw_bare_header [OF w f l, of example_env loading_rproc 0 "[]" tail_image]
  from inst [THEN conjunct1]
  have 1: "rproc_process_fw example_env loading_rproc (whole_section @ tail_header) 36 0 [] =
       Some (0, loading_rproc, 0,
             [Ioremap 0x1000 4 0xC0001000, Memcpy 0xC0001000 [0xDE, 0xAD, 0xBE, 0xEF],
              Iounmap 0xC0001000])"
    unfolding n whole_section_run by simp
  from inst [THEN conjunct2, THEN conjunct2, THEN conjunct2, THEN mp, OF tail_image_shape]
  have 2: "rproc_load_fw example_env loading_rproc (Some tail_image) [] =
       Some (loading_rproc\<lparr>state := RPROC_RUNNING, firmware_loading_complete := True\<rparr>,
             [Ioremap 0x1000 4 0xC0001000, Memcpy 0xC0001000 [0xDE, 0xAD, 0xBE, 0xEF],
              Iounmap 0xC0001000, Mutex_lock, Ops_start 0 0, Mutex_unlock, Release_firmware])"
    unfolding whole_section_run by (simp add: st)
  have f0: "length [2, 0, 0, 0, 0, 0x10, 0, 0, 0, 0, 0, 0, 0, 0, 0, 0 :: u8] = sizeof_fw_section"
    by (simp add: sizeof_fw_section_def)
  have l0: "length (concat [] @ [2, 0, 0, 0, 0, 0x10, 0, 0, 0, 0, 0, 0, 0, 0, 0, 0 :: u8]) < 2 ^ 32"
    by simp
  have w0: "\<forall>sb \<in> set ([] :: u8 list list). is_whole sb" by simp
  from rproc_process_fw_bare_header [OF w0 f0 l0, of example_env loading_rproc 0 "[]"
      header_only_image, THEN conjunct2, THEN conjunct2, THEN conjunct2, THEN mp,
      OF header_only_image_area]
  have 3: "rproc_load_fw example_env loading_rproc (Some header_only_image) [] =
       Some (loading_rproc\<lparr>state := RPROC_RUNNING, firmware_loading_complete := True\<rparr>,
             [Mutex_lock, Ops_start 0 0, Mutex_unlock, Release_firmware])"
    by (simp add: start_loading_rproc)
  from whole_section_is_whole f l 1 2 3 show ?thesis by blast
qed

subsection \<open>Truncated sections\<close>

lemma rproc_handle_trace_rsc_events:
  "rproc_handle_trace_rsc e r rsc log = (ret, r1, log1) \<Longrightarrow>
     \<exists>evs. log1 = log @ evs \<and> Dev_err Firmware_image_is_truncated \<notin> set evs"
  by (auto simp add: rproc_handle_trace_rsc_def Let_def split: sum.splits if_splits)

lemma handle_resources_loop_events:
  "handle_resources_loop e r rscs bootaddr log = (ret, r1, bootaddr1, log1) \<Longrightarrow>
     \<exists>evs. log1 = log @ evs \<and> Dev_err Firmware_image_is_truncated \<notin> set evs"
proof (induction rscs arbitrary: r bootaddr log)
  case Nil
  then show ?case by simp
next
  case (Cons rsc rest)
  consider (trace) "rsc_type rsc = RSC_TRACE"
    | (boot) "rsc_type rsc \<noteq> RSC_TRACE" "rsc_type rsc = RSC_BOOTADDR"
    | (other) "rsc_type rsc \<noteq> RSC_TRACE" "rsc_type rsc \<noteq> RSC_BOOTADDR"
    by blast
  then show ?case
  proof cases
    case trace
    obtain ret2 r2 log2 where t: "rproc_handle_trace_rsc e r rsc log = (ret2, r2, log2)"
      by (cases "rproc_handle_trace_rsc e r rsc log") auto
    from rproc_handle_trace_rsc_events [OF t] obtain evs2 where
      2: "log2 = log @ evs2" "Dev_err Firmware_image_is_truncated \<notin> set evs2"
      by blast
    show ?thesis
    proof (cases "ret2 = 0")
      case True
      with Cons.prems trace t
      have "handle_resources_loop e r2 rest bootaddr log2 = (ret, r1, bootaddr1, log1)"
        by simp
      from Cons.IH [OF this] obtain evs3 where
        "log1 = log2 @ evs3" "Dev_err Firmware_image_is_truncated \<notin> set evs3"
        by blast
      with 2 have "log1 = log @ (evs2 @ evs3)"
        "Dev_err Firmware_image_is_truncated \<notin> set (evs2 @ evs3)"
        by simp_all
      then show ?thesis by blast
    next
      case False
      with Cons.prems trace t have "log1 = log2 @ [Dev_err Failed_handling_rsc]"
        by simp
      with 2 have "log1 = log @ (evs2 @ [Dev_err Failed_handling_rsc])"
        "Dev_err Firmware_image_is_truncated \<notin> set (evs2 @ [Dev_err Failed_handling_rsc])"
        by simp_all
      then show ?thesis by blast
    qed
  next
    case boot
    let ?evs = "if bootaddr \<noteq> 0 then [Dev_warn Bootaddr_already_set] else []"
    from Cons.prems boot
    have "handle_resources_loop e r rest (rsc_da rsc) (log @ ?evs) = (ret, r1, bootaddr1, log1)"
      by (cases "bootaddr = 0") simp_all
    from Cons.IH [OF this] obtain evs3 where
      "log1 = (log @ ?evs) @ evs3" "Dev_err Firmware_image_is_truncated \<notin> set evs3"
      by blast
    then have "log1 = log @ (?evs @ evs3)"
      "Dev_err Firmware_image_is_truncated \<notin> set (?evs @ evs3)"
      by simp_all
    then show ?thesis by blast
  next
    case other
    with Cons.prems have "handle_resources_loop e r rest bootaddr log = (ret, r1, bootaddr1, log1)"
      by simp
    from Cons.IH [OF this] show ?thesis .
  qed
qed

lemma rproc_handle_resources_events:
  assumes "rproc_handle_resources e r rscs bootaddr log = (ret, r1, bootaddr1, log1)"
  shows "\<exists>evs. log1 = log @ evs \<and> Dev_err Firmware_image_is_truncated \<notin> set evs"
proof -
  obtain ret2 r2 b2 log2 where l: "handle_resources_loop e r rscs bootaddr log = (ret2, r2, b2, log2)"
    by (cases "handle_resources_loop e r rscs bootaddr log") auto
  from handle_resources_loop_events [OF l] obtain evs2 where
    2: "log2 = log @ evs2" "Dev_err Firmware_image_is_truncated \<notin> set evs2"
    by blast
  let ?u = "(if ret2 \<noteq> 0 \<and> trace_buf0 r2 \<noteq> 0 then [Iounmap (trace_buf0 r2)] else [])
            @ (if ret2 \<noteq> 0 \<and> trace_buf1 r2 \<noteq> 0 then [Iounmap (trace_buf1 r2)] else [])"
  from assms l have "log1 = log2 @ ?u"
    by (auto simp add: rproc_handle_resources_def)
  with 2 have "log1 = log @ (evs2 @ ?u)"
    "Dev_err Firmware_image_is_truncated \<notin> set (evs2 @ ?u)"
    by simp_all
  then show ?thesis by blast
qed

lemma section_body_fitting:
  assumes fits: "\<not> left - 16 < sec_len s"
    and content: "read_content sect (sec_len s) = Some content"
  shows "\<exists>ret r1 bootaddr1 evs.
           section_body e r s sect left bootaddr log = Some (ret, r1, bootaddr1, log @ evs) \<and>
           Dev_err Firmware_image_is_truncated \<notin> set evs"
proof (cases "rproc_da_to_pa (memory_maps r) (sec_da s)")
  case (Inl err)
  with fits have "section_body e r s sect left bootaddr log =
      Some (err, r, bootaddr, log @ [Dev_err Rproc_da_to_pa_failed])"
    by (simp add: section_body_def)
  then show ?thesis by auto
next
  case (Inr pa)
  let ?p = "ioremap_nocache e log pa (sec_len s)"
  show ?thesis
  proof (cases "?p = 0")
    case True
    with fits Inr have "section_body e r s sect left bootaddr log =
        Some (- ENOMEM, r, bootaddr, log @ [Ioremap pa (sec_len s) 0, Dev_err Cant_ioremap])"
      by (simp add: section_body_def)
    then show ?thesis by auto
  next
    case mapped: False
    let ?evs = "[Ioremap pa (sec_len s) ?p, Memcpy ?p content]"
    show ?thesis
    proof (cases "sec_type s = FW_RESOURCE")
      case True
      obtain ret2 r2 b2 log2 where
        h: "rproc_handle_resources e r (fw_resources content) bootaddr (log @ ?evs) = (ret2, r2, b2, log2)"
        by (cases "rproc_handle_resources e r (fw_resources content) bootaddr (log @ ?evs)") auto
      from rproc_handle_resources_events [OF h] obtain evs2 where
        2: "log2 = (log @ ?evs) @ evs2" "Dev_err Firmware_image_is_truncated \<notin> set evs2"
        by blast
      from fits Inr mapped content True h
      have "section_body e r s sect left bootaddr log = Some (ret2, r2, b2, log2 @ [Iounmap ?p])"
        by (simp add: section_body_def)
      with 2 have "section_body e r s sect left bootaddr log =
          Some (ret2, r2, b2, log @ (?evs @ evs2 @ [Iounmap ?p]))"
        "Dev_err Firmware_image_is_truncated \<notin> set (?evs @ evs2 @ [Iounmap ?p])"
        by simp_all
      then show ?thesis by blast
    next
      case False
      with fits Inr mapped content
      have "section_body e r s sect left bootaddr log =
          Some (0, r, bootaddr, log @ (?evs @ [Iounmap ?p]))"
        by (simp add: section_body_def)
      moreover have "Dev_err Firmware_image_is_truncated \<notin> set (?evs @ [Iounmap ?p])"
        by simp
      ultimately show ?thesis by blast
    qed
  qed
qed

text \<open>
  C8, as the code has it. The loop looks at a section header only while more than
  \<open>sizeof(struct fw_section)\<close> bytes are left. Then a section whose \<open>len\<close> is more than
  the bytes left after its header fails with \<open>-EINVAL\<close> and the message that the image
  is truncated, and nothing else happens; a section whose \<open>len\<close> is exactly the bytes
  left after its header is not reported as truncated: it goes on to translation and
  mapping, and a TEXT or DATA section that translates and maps is copied and the loader
  returns 0. With \<open>sizeof(struct fw_section)\<close> bytes or fewer left, the header is not
  looked at and the loader returns 0, whatever \<open>len\<close> the header declares.
\<close>

theorem rproc_process_fw_truncation:
  "(16 < left \<and> read_fw_section sect = Some s \<and> left - 16 < sec_len s \<longrightarrow>
      rproc_process_fw e r sect left bootaddr log =
        Some (- EINVAL, r, bootaddr, log @ [Dev_err Firmware_image_is_truncated]))
   \<and> (16 < left \<and> read_fw_section sect = Some s \<and> sec_len s = left - 16 \<and>
      read_content sect (sec_len s) = Some content \<longrightarrow>
      (\<exists>ret r1 bootaddr1 evs.
         rproc_process_fw e r sect left bootaddr log = Some (ret, r1, bootaddr1, log @ evs) \<and>
         Dev_err Firmware_image_is_truncated \<notin> set evs) \<and>
      (sec_type s \<noteq> FW_RESOURCE \<and> rproc_da_to_pa (memory_maps r) (sec_da s) = Inr pa \<and>
       ioremap_nocache e log pa (sec_len s) \<noteq> 0 \<longrightarrow>
         rproc_process_fw e r sect left bootaddr log =
           Some (0, r, bootaddr,
                 log @ [Ioremap pa (sec_len s) (ioremap_nocache e log pa (sec_len s)),
                        Memcpy (ioremap_nocache e log pa (sec_len s)) content,
                        Iounmap (ioremap_nocache e log pa (sec_len s))])))
   \<and> (left \<le> 16 \<longrightarrow> rproc_process_fw e r sect left bootaddr log = Some (0, r, bootaddr, log))"
proof (intro conjI impI)
  assume "16 < left \<and> read_fw_section sect = Some s \<and> left - 16 < sec_len s"
  then show "rproc_process_fw e r sect left bootaddr log =
        Some (- EINVAL, r, bootaddr, log @ [Dev_err Firmware_image_is_truncated])"
    by (subst rproc_process_fw_unfold) (simp add: section_body_def)
next
  assume a: "16 < left \<and> read_fw_section sect = Some s \<and> sec_len s = left - 16 \<and>
      read_content sect (sec_len s) = Some content"
  then have fits: "\<not> left - 16 < sec_len s" by simp
  from a have z: "\<not> 16 < left - 16 - sec_len s" by simp
  from a have c: "read_content sect (sec_len s) = Some content" by blast
  from section_body_fitting [OF fits c] obtain ret r1 bootaddr1 evs where
    b: "section_body e r s sect left bootaddr log = Some (ret, r1, bootaddr1, log @ evs)"
       "Dev_err Firmware_image_is_truncated \<notin> set evs"
    by blast
  from a b(1) z have "rproc_process_fw e r sect left bootaddr log = Some (ret, r1, bootaddr1, log @ evs)"
    by (subst rproc_process_fw_unfold) (simp add: rproc_process_fw_stop)
  with b(2) show "\<exists>ret r1 bootaddr1 evs.
         rproc_process_fw e r sect left bootaddr log = Some (ret, r1, bootaddr1, log @ evs) \<and>
         Dev_err Firmware_image_is_truncated \<notin> set evs"
    by blast
  assume d: "sec_type s \<noteq> FW_RESOURCE \<and> rproc_da_to_pa (memory_maps r) (sec_da s) = Inr pa \<and>
       ioremap_nocache e log pa (sec_len s) \<noteq> 0"
  let ?p = "ioremap_nocache e log pa (sec_len s)"
  from fits c d have "section_body e r s sect left bootaddr log =
      Some (0, r, bootaddr, log @ [Ioremap pa (sec_len s) ?p, Memcpy ?p content, Iounmap ?p])"
    by (simp add: section_body_def)
  with a z show "rproc_process_fw e r sect left bootaddr log =
      Some (0, r, bootaddr, log @ [Ioremap pa (sec_len s) ?p, Memcpy ?p content, Iounmap ?p])"
    by (subst rproc_process_fw_unfold) (simp add: rproc_process_fw_stop)
next
  assume "left \<le> 16"
  then have "\<not> 16 < left" by simp
  then show "rproc_process_fw e r sect left bootaddr log = Some (0, r, bootaddr, log)"
    by (rule rproc_process_fw_stop)
qed

lemma read_four_byte_section:
  "read_fw_section (four_byte_section @ bs) = Some \<lparr>sec_type = 2, sec_da = 0x1000, sec_len = 4\<rparr>"
  by (simp add: read_fw_section_def four_byte_section_def sizeof_fw_section_def le_word_def)

lemma read_whole_content:
  "read_content whole_section 4 = Some [0xDE, 0xAD, 0xBE, 0xEF]"
  by (simp add: read_content_def whole_section_def four_byte_section_def sizeof_fw_section_def)

lemma translate_0x1000: "rproc_da_to_pa None 0x1000 = Inr 0x1000"
  by (simp add: rproc_da_to_pa_None)

theorem rproc_process_fw_truncation_witness:
  "rproc_process_fw example_env loading_rproc cut_section 18 0 [] =
     Some (- EINVAL, loading_rproc, 0, [Dev_err Firmware_image_is_truncated])
   \<and> rproc_process_fw example_env loading_rproc whole_section 20 0 [] =
     Some (0, loading_rproc, 0,
           [Ioremap 0x1000 4 0xC0001000, Memcpy 0xC0001000 [0xDE, 0xAD, 0xBE, 0xEF],
            Iounmap 0xC0001000])
   \<and> rproc_process_fw example_env loading_rproc four_byte_section 16 0 [] =
     Some (0, loading_rproc, 0, [])"
proof -
  let ?s = "\<lparr>sec_type = 2, sec_da = 0x1000, sec_len = 4\<rparr>"
  have m: "memory_maps loading_rproc = None"
    by (simp add: loading_rproc_def example_rproc_def)
  have p: "ioremap_nocache example_env [] 0x1000 4 = 0xC0001000"
    by (simp add: example_env_def)
  have 1: "(16 :: u32) < 18 \<and> read_fw_section cut_section = Some ?s \<and> (18 :: u32) - 16 < sec_len ?s"
    by (simp add: cut_section_def read_four_byte_section)
  have 2: "(16 :: u32) < 20 \<and> read_fw_section whole_section = Some ?s \<and> sec_len ?s = 20 - 16 \<and>
           read_content whole_section (sec_len ?s) = Some [0xDE, 0xAD, 0xBE, 0xEF]"
    by (simp add: whole_section_def read_four_byte_section read_whole_content [unfolded whole_section_def])
  have 3: "sec_type ?s \<noteq> FW_RESOURCE \<and>
           rproc_da_to_pa (memory_maps loading_rproc) (sec_da ?s) = Inr 0x1000 \<and>
           ioremap_nocache example_env [] 0x1000 (sec_len ?s) \<noteq> 0"
    by (simp add: m translate_0x1000 p FW_RESOURCE_def)
  have 4: "(16 :: u32) \<le> 16" by simp
  from rproc_process_fw_truncation
         [where left = 18 and sect = cut_section and s = ?s and e = example_env
            and r = loading_rproc and bootaddr = 0 and log = "[]"] 1
  have a: "rproc_process_fw example_env loading_rproc cut_section 18 0 [] =
     Some (- EINVAL, loading_rproc, 0, [Dev_err Firmware_image_is_truncated])"
    by simp
  from rproc_process_fw_truncation
         [where left = 20 and sect = whole_section and s = ?s and e = example_env
            and r = loading_rproc and bootaddr = 0 and log = "[]"
            and content = "[0xDE, 0xAD, 0xBE, 0xEF]" and pa = "0x1000"] 2 3
  have b: "rproc_process_fw example_env loading_rproc whole_section 20 0 [] =
     Some (0, loading_rproc, 0,
           [Ioremap 0x1000 4 (ioremap_nocache example_env [] 0x1000 (sec_len ?s)),
            Memcpy (ioremap_nocache example_env [] 0x1000 (sec_len ?s)) [0xDE, 0xAD, 0xBE, 0xEF],
            Iounmap (ioremap_nocache example_env [] 0x1000 (sec_len ?s))])"
    by simp
  from rproc_process_fw_truncation
         [where left = 16 and sect = four_byte_section and e = example_env
            and r = loading_rproc and bootaddr = 0 and log = "[]"] 4
  have c: "rproc_process_fw example_env loading_rproc four_byte_section 16 0 [] =
     Some (0, loading_rproc, 0, [])"
    by simp
  from a b c p show ?thesis by simp
qed

text \<open>
  C8 as claimed fails where a section header is all that is left: the header declares
  four bytes, none follows, and the loader returns 0; the image that ends there is
  started.
\<close>

theorem rproc_process_fw_truncation_counterexample:
  "read_fw_section four_byte_section = Some \<lparr>sec_type = 2, sec_da = 0x1000, sec_len = 4\<rparr>
   \<and> rproc_process_fw example_env loading_rproc four_byte_section 16 0 [] =
       Some (0, loading_rproc, 0, [])
   \<and> rproc_load_fw example_env loading_rproc (Some cut_image) [] =
       Some (loading_rproc\<lparr>state := RPROC_RUNNING, firmware_loading_complete := True\<rparr>,
             [Mutex_lock, Ops_start 0 0, Mutex_unlock, Release_firmware])"
proof -
  have l: "(le_word (take 4 (drop 8 cut_image)) :: u32) = 0"
    by (simp add: cut_image_def le_word_def)
  have "sizeof_fw_header \<le> length cut_image" "take 4 cut_image = fw_magic"
    "length cut_image =
       sizeof_fw_header + unat (le_word (take 4 (drop 8 cut_image)) :: u32) + sizeof_fw_section"
    unfolding l
    by (simp_all add: cut_image_def four_byte_section_def fw_magic_def sizeof_fw_header_def
          sizeof_fw_section_def)
  from rproc_load_fw_bare_header [OF this]
  have "rproc_load_fw example_env loading_rproc (Some cut_image) [] =
       Some (loading_rproc\<lparr>state := RPROC_RUNNING, firmware_loading_complete := True\<rparr>,
             [Mutex_lock, Ops_start 0 0, Mutex_unlock, Release_firmware])"
    by (simp add: start_loading_rproc)
  moreover have "read_fw_section four_byte_section =
      Some \<lparr>sec_type = 2, sec_da = 0x1000, sec_len = 4\<rparr>"
    using read_four_byte_section [of "[]"] by simp
  ultimately show ?thesis by (simp add: rproc_process_fw_16)
qed

subsection \<open>The boot address\<close>

lemma resource_types_differ [simp]: "RSC_BOOTADDR \<noteq> RSC_TRACE" "RSC_TRACE \<noteq> RSC_BOOTADDR"
  by (simp_all add: RSC_BOOTADDR_def RSC_TRACE_def)

lemma last_bootaddr_Cons:
  "last_bootaddr (rsc # rest) bootaddr =
     (if rsc_type rsc = RSC_BOOTADDR then last_bootaddr rest (rsc_da rsc)
      else last_bootaddr rest bootaddr)"
  by (simp add: last_bootaddr_def split: list.splits)

lemma last_bootaddr_Nil [simp]: "last_bootaddr [] bootaddr = bootaddr"
  by (simp add: last_bootaddr_def)

lemma rproc_handle_trace_rsc_no_warning:
  "rproc_handle_trace_rsc e r rsc log = (ret, r1, log1) \<Longrightarrow>
     \<exists>evs. log1 = log @ evs \<and> warnings evs = 0"
  by (auto simp add: rproc_handle_trace_rsc_def warnings_def Let_def split: sum.splits if_splits)

lemma handle_resources_loop_bootaddr:
  "handle_resources_loop e r rscs bootaddr log = (0, r1, bootaddr1, log1) \<Longrightarrow>
     bootaddr1 = last_bootaddr rscs bootaddr \<and>
     (\<exists>evs. log1 = log @ evs \<and> warnings evs = bootaddr_warnings rscs bootaddr)"
proof (induction rscs arbitrary: r bootaddr log)
  case Nil
  then show ?case by (simp add: warnings_def)
next
  case (Cons rsc rest)
  consider (trace) "rsc_type rsc = RSC_TRACE"
    | (boot) "rsc_type rsc \<noteq> RSC_TRACE" "rsc_type rsc = RSC_BOOTADDR"
    | (other) "rsc_type rsc \<noteq> RSC_TRACE" "rsc_type rsc \<noteq> RSC_BOOTADDR"
    by blast
  then show ?case
  proof cases
    case trace
    obtain ret2 r2 log2 where t: "rproc_handle_trace_rsc e r rsc log = (ret2, r2, log2)"
      by (cases "rproc_handle_trace_rsc e r rsc log") auto
    from rproc_handle_trace_rsc_no_warning [OF t] obtain evs2 where
      2: "log2 = log @ evs2" "warnings evs2 = 0"
      by blast
    from Cons.prems trace t have z: "ret2 = 0"
      by (cases "ret2 = 0") simp_all
    with Cons.prems trace t
    have "handle_resources_loop e r2 rest bootaddr log2 = (0, r1, bootaddr1, log1)"
      by simp
    from Cons.IH [OF this] obtain evs3 where
      3: "bootaddr1 = last_bootaddr rest bootaddr" "log1 = log2 @ evs3"
         "warnings evs3 = bootaddr_warnings rest bootaddr"
      by blast
    from 2 3 have "log1 = log @ (evs2 @ evs3)"
      "warnings (evs2 @ evs3) = bootaddr_warnings rest bootaddr"
      by (simp_all add: warnings_def)
    with 3(1) trace show ?thesis
      by (auto simp add: last_bootaddr_Cons)
  next
    case boot
    let ?evs = "if bootaddr \<noteq> 0 then [Dev_warn Bootaddr_already_set] else []"
    from Cons.prems boot
    have "handle_resources_loop e r rest (rsc_da rsc) (log @ ?evs) = (0, r1, bootaddr1, log1)"
      by (cases "bootaddr = 0") simp_all
    from Cons.IH [OF this] obtain evs3 where
      3: "bootaddr1 = last_bootaddr rest (rsc_da rsc)" "log1 = (log @ ?evs) @ evs3"
         "warnings evs3 = bootaddr_warnings rest (rsc_da rsc)"
      by blast
    then have "log1 = log @ (?evs @ evs3)"
      "warnings (?evs @ evs3) = (if bootaddr \<noteq> 0 then 1 else 0) + bootaddr_warnings rest (rsc_da rsc)"
      by (simp_all add: warnings_def)
    with 3(1) boot show ?thesis
      by (auto simp add: last_bootaddr_Cons)
  next
    case other
    with Cons.prems have "handle_resources_loop e r rest bootaddr log = (0, r1, bootaddr1, log1)"
      by simp
    from Cons.IH [OF this] other show ?thesis
      by (simp add: last_bootaddr_Cons)
  qed
qed

text \<open>
  C2, as the code has it. A BOOTADDR entry always stores its device address: after a
  walk that succeeds, the boot address is the device address of the last BOOTADDR
  entry of the section (the address found before the section when it has none). A
  BOOTADDR entry met while the recorded address is not 0 emits the warning and then
  overwrites the address.
\<close>

theorem rproc_handle_resources_bootaddr:
  assumes "rproc_handle_resources e r rscs bootaddr log = (0, r1, bootaddr1, log1)"
  shows "bootaddr1 = last_bootaddr rscs bootaddr \<and>
         take (length log) log1 = log \<and>
         warnings (drop (length log) log1) = bootaddr_warnings rscs bootaddr"
proof -
  obtain ret2 r2 b2 log2 where l: "handle_resources_loop e r rscs bootaddr log = (ret2, r2, b2, log2)"
    by (cases "handle_resources_loop e r rscs bootaddr log") auto
  with assms have "ret2 = 0" "b2 = bootaddr1" "log2 = log1"
    by (auto simp add: rproc_handle_resources_def)
  with l have "handle_resources_loop e r rscs bootaddr log = (0, r2, bootaddr1, log1)"
    by simp
  from handle_resources_loop_bootaddr [OF this] show ?thesis by auto
qed

lemma two_boot_entries:
  "rproc_handle_resources example_env loading_rproc
       [boot_entry 0x10080000, boot_entry 0x20000000] 0 [] =
     (0, loading_rproc, 0x20000000, [Dev_warn Bootaddr_already_set])"
  by (simp add: rproc_handle_resources_def boot_entry_def)

theorem rproc_handle_resources_bootaddr_witness:
  "rproc_handle_resources example_env loading_rproc
       [boot_entry 0x10080000, boot_entry 0x20000000] 0 [] =
     (0, loading_rproc, 0x20000000, [Dev_warn Bootaddr_already_set])
   \<and> last_bootaddr [boot_entry 0x10080000, boot_entry 0x20000000] 0 = 0x20000000
   \<and> bootaddr_warnings [boot_entry 0x10080000, boot_entry 0x20000000] 0 = 1"
  using rproc_handle_resources_bootaddr [OF two_boot_entries] two_boot_entries
  by (simp add: warnings_def)

text \<open>
  C2 as claimed fails on a section with the BOOTADDR entries \<open>0x10080000\<close> and
  \<open>0x20000000\<close>: the walk leaves \<open>0x20000000\<close>, after one warning, and the image that
  holds this section is started at \<open>0x20000000\<close>.
\<close>

theorem rproc_handle_resources_bootaddr_counterexample:
  "rproc_handle_resources example_env loading_rproc
       [boot_entry 0x10080000, boot_entry 0x20000000] 0 [] =
     (0, loading_rproc, 0x20000000, [Dev_warn Bootaddr_already_set])
   \<and> rsc_da (boot_entry 0x10080000) \<noteq> 0x20000000
   \<and> fw_resources (drop 28 two_boot_image) =
       [boot_entry 0x10080000\<lparr>rsc_name := replicate 48 0\<rparr>,
        boot_entry 0x20000000\<lparr>rsc_name := replicate 48 0\<rparr>]
   \<and> (case rproc_load_fw example_env loading_rproc (Some two_boot_image) [] of
        None \<Rightarrow> False
      | Some (r, log) \<Rightarrow> state r = RPROC_RUNNING \<and> starts log = [Ops_start 0x20000000 0])"
  by code_simp

subsection \<open>Trace buffers\<close>










end
